theory Spec2Isabelle
  imports Main "HOL-Library.Word"
begin

section \<open>ClawChat: the session client, the chat store, the crypto manager and the bot\<close>

text \<open>
  A shallow embedding of the TypeScript sources. Every class becomes a record of its
  fields, every method a function from the state before the call to the outcome and the
  state after it. What the Matrix SDK, the network or the clock answer is an argument of
  the function that asks. A thrown exception or rejected promise is the outcome
  \<open>Rejected\<close>; a promise that never settles is \<open>Pending\<close>.
\<close>

subsection \<open>Errors and promises\<close>

datatype js_error = Error string

datatype 'a promise = Resolved 'a | Rejected js_error | Pending

text \<open>
  A JavaScript string is a sequence of 16-bit code units. Where the code looks at the
  code units of a text (\<open>trim\<close>, \<open>Buffer\<close>) the text is a \<open>jsstring\<close>; identifiers
  and texts that are only compared, concatenated and passed on stay \<open>string\<close>s.
\<close>

type_synonym jsstring = "16 word list"

subsection \<open>The data model of \<open>matrix/client.ts\<close>\<close>

datatype MessageType = TextMsg | ImageMsg | FileMsg | NoticeMsg

record Message =
  msgId :: string
  roomId :: string
  sender :: string
  senderName :: string
  body :: string
  timestamp :: int
  msgType :: MessageType
  isMe :: bool
  encrypted :: bool
  verified :: bool

record Room =
  id_r :: string
  name_r :: string
  topic :: "string option"
  avatarUrl :: "string option"
  isDirect :: bool
  lastMessage :: "Message option"
  unreadCount :: nat
  encrypted_r :: bool

record AuthSession =
  accessToken :: string
  userId_s :: string
  deviceId_s :: string
  homeserver_s :: string

record MatrixConfig =
  homeserver :: string
  enableE2EE :: bool

subsection \<open>What the code sees of the Matrix SDK\<close>

text \<open>
  The SDK objects are read through their getters only, so each is a record of what the
  getters return. \<open>content_body\<close> and \<open>content_msgtype\<close> are \<open>None\<close> where the JSON
  content has no such key. \<open>getType\<close> is the type the event reports when the code
  asks: for an encrypted event that the SDK has not decrypted this is the wire type
  \<open>m.room.encrypted\<close>, and the type of the clear event otherwise. \<open>decryptOutcome\<close> is
  what \<open>decryptEventIfNeeded\<close> does to the event: it throws, or it leaves the event with
  the given content.
\<close>

record Content =
  content_body :: "string option"
  content_msgtype :: "string option"

record MatrixEvent =
  getId :: string
  getType :: string
  getSender :: string
  getTs :: int
  getContent :: Content
  isEncrypted :: bool
  isVerified :: "bool option"
  decryptOutcome :: "js_error + Content"

record RoomMember =
  member_userId :: string
  member_name :: string
  membership :: string

record SdkRoom =
  sdk_roomId :: string
  members :: "RoomMember list"
  liveTimeline :: "MatrixEvent list"

record OwnDeviceKeys =
  own_ed25519 :: string
  own_curve25519 :: string

record CryptoApi =
  getOwnDeviceKeys :: "OwnDeviceKeys option"

record MatrixClient =
  getUserId_sdk :: "string option"
  getDeviceId_sdk :: "string option"
  isCryptoEnabled :: bool
  getCrypto :: "CryptoApi option"
  getRooms_sdk :: "SdkRoom list"
  timelineListener :: bool
  cryptoListeners :: bool

text \<open>The calls the client makes on the SDK and the network, in the order it makes them.\<close>

datatype sdk_call =
    TempLogin string string
  | TempStopClient
  | CreateClient string string string string
  | InitRustCrypto
  | StartClient nat
  | UploadKeys
  | Logout
  | StopClient
  | SendTextMessage string string
  | Fetch string
  | UploadContent string string
  | SendImageMessage string string string
  | CreateRoom string bool
  | SetDeviceVerified string string bool

record Blob =
  blob_type :: string
  blob_size :: nat

text \<open>
  \<open>ClawChatClient\<close>: the private fields of the class, and \<open>sdkCalls\<close>, the log of
  the calls made so far. A callback field holds whether a callback is registered.
\<close>

record ClawChatClient =
  client :: "MatrixClient option"
  config :: MatrixConfig
  onMessageCallback :: bool
  onRoomUpdateCallback :: bool
  onVerificationCallback :: bool
  sdkCalls :: "sdk_call list"

definition call :: "sdk_call \<Rightarrow> ClawChatClient \<Rightarrow> ClawChatClient" where
  "call c st = st\<lparr>sdkCalls := sdkCalls st @ [c]\<rparr>"

definition truthy :: "string option \<Rightarrow> bool" where
  "truthy s = (case s of None \<Rightarrow> False | Some v \<Rightarrow> v \<noteq> [])"

subsection \<open>Construction, login and initialization\<close>

definition DEFAULT_HOMESERVER :: string where
  "DEFAULT_HOMESERVER = ''https://matrix.clawchat.io''"

text \<open>
  The constructor: \<open>homeserver\<close> defaults when absent or empty (to the value
  \<open>config.ts\<close> has when the app configuration sets none), \<open>enableE2EE\<close> defaults to
  true when absent. The model follows the client with E2EE support; the plain client has
  the same \<open>sendMessage\<close>, \<open>sendImage\<close> and room lookup.
\<close>

definition newClawChatClient :: "string option \<Rightarrow> bool option \<Rightarrow> ClawChatClient" where
  "newClawChatClient hs e2ee =
     \<lparr>client = None,
      config = \<lparr>homeserver = (if truthy hs then (case hs of Some h \<Rightarrow> h | None \<Rightarrow> DEFAULT_HOMESERVER)
                                else DEFAULT_HOMESERVER),
                enableE2EE = (case e2ee of Some b \<Rightarrow> b | None \<Rightarrow> True)\<rparr>,
      onMessageCallback = False,
      onRoomUpdateCallback = False,
      onVerificationCallback = False,
      sdkCalls = []\<rparr>"


definition createClient :: "AuthSession \<Rightarrow> MatrixClient" where
  "createClient session =
     \<lparr>getUserId_sdk = Some (userId_s session),
      getDeviceId_sdk = Some (deviceId_s session),
      isCryptoEnabled = False,
      getCrypto = None,
      getRooms_sdk = [],
      timelineListener = False,
      cryptoListeners = False\<rparr>"

definition updClient :: "(MatrixClient \<Rightarrow> MatrixClient) \<Rightarrow> ClawChatClient \<Rightarrow> ClawChatClient" where
  "updClient f st = st\<lparr>client := map_option f (client st)\<rparr>"



definition isE2EEEnabled :: "ClawChatClient \<Rightarrow> bool" where
  "isE2EEEnabled st = (case client st of None \<Rightarrow> False | Some c \<Rightarrow> isCryptoEnabled c)"






text \<open>\<open>logout()\<close>: an error of the server-side logout is swallowed.\<close>

definition logout :: "ClawChatClient \<Rightarrow> unit promise \<times> ClawChatClient" where
  "logout st =
     (case client st of
        None \<Rightarrow> (Resolved (), st)
      | Some c \<Rightarrow> (Resolved (), (call StopClient (call Logout st))\<lparr>client := None\<rparr>))"


subsection \<open>E2EE functions of the client\<close>

definition getDeviceId :: "ClawChatClient \<Rightarrow> string option" where
  "getDeviceId st =
     (case client st of
        None \<Rightarrow> None
      | Some c \<Rightarrow> if truthy (getDeviceId_sdk c) then getDeviceId_sdk c else None)"

text \<open>
  \<open>getDeviceFingerprint()\<close>. The promise it returns always resolves, so the result is
  the resolved value: \<open>None\<close> is \<open>null\<close>.
\<close>

definition getDeviceFingerprint :: "ClawChatClient \<Rightarrow> string option" where
  "getDeviceFingerprint st =
     (case client st of
        None \<Rightarrow> None
      | Some c \<Rightarrow>
          if \<not> isCryptoEnabled c then None
          else if \<not> truthy (getDeviceId_sdk c) then None
          else (case getCrypto c of
                  None \<Rightarrow> None
                | Some api \<Rightarrow>
                    (case getOwnDeviceKeys api of
                       None \<Rightarrow> None
                     | Some device \<Rightarrow>
                         if own_ed25519 device = [] then None else Some (own_ed25519 device))))"

text \<open>
  The own device's signing key as the crypto API holds it: present when there is a
  crypto API with device keys whose \<open>ed25519\<close> entry is a non-empty string.
\<close>

definition ownDeviceKey :: "ClawChatClient \<Rightarrow> string option" where
  "ownDeviceKey st =
     (case client st of
        None \<Rightarrow> None
      | Some c \<Rightarrow>
          (case getCrypto c of
             None \<Rightarrow> None
           | Some api \<Rightarrow>
               (case getOwnDeviceKeys api of
                  None \<Rightarrow> None
                | Some device \<Rightarrow> if own_ed25519 device = [] then None else Some (own_ed25519 device))))"

text \<open>
  The client's \<open>verifyDevice(userId, deviceId)\<close>; \<open>resp\<close> is the outcome of the SDK's
  \<open>setDeviceVerified\<close>.
\<close>

definition verifyDevice_client ::
  "string \<Rightarrow> string \<Rightarrow> js_error + unit \<Rightarrow> ClawChatClient \<Rightarrow> unit promise \<times> ClawChatClient"
where
  "verifyDevice_client uid did resp st =
     (case client st of
        None \<Rightarrow> (Rejected (Error ''E2EE not enabled''), st)
      | Some c \<Rightarrow>
          if \<not> isCryptoEnabled c then (Rejected (Error ''E2EE not enabled''), st)
          else (case getCrypto c of
                  None \<Rightarrow> (Rejected (Error ''Crypto not available''), st)
                | Some api \<Rightarrow>
                    (case resp of
                       Inl e \<Rightarrow> (Rejected e, call (SetDeviceVerified uid did True) st)
                     | Inr _ \<Rightarrow> (Resolved (), call (SetDeviceVerified uid did True) st))))"

subsection \<open>Messaging\<close>

text \<open>
  \<open>sendMessage(roomId, text)\<close>; \<open>resp\<close> is what \<open>sendTextMessage\<close> answers (the
  event id, or the error it throws).
\<close>

definition sendMessage ::
  "string \<Rightarrow> string \<Rightarrow> js_error + string \<Rightarrow> ClawChatClient \<Rightarrow> string promise \<times> ClawChatClient"
where
  "sendMessage rid txt resp st =
     (case client st of
        None \<Rightarrow> (Rejected (Error ''Client not initialized''), st)
      | Some c \<Rightarrow>
          (case resp of
             Inl e \<Rightarrow> (Rejected e, call (SendTextMessage rid txt) st)
           | Inr event_id \<Rightarrow> (Resolved event_id, call (SendTextMessage rid txt) st)))"

text \<open>
  \<open>sendImage(roomId, uri, filename)\<close>; \<open>fetched\<close> is the blob \<open>fetch(uri)\<close> gives,
  \<open>uploaded\<close> the content uri of \<open>uploadContent\<close>, \<open>resp\<close> the event id of
  \<open>sendImageMessage\<close>, each or the error thrown instead.
\<close>

definition sendImage ::
  "string \<Rightarrow> string \<Rightarrow> string \<Rightarrow> js_error + Blob \<Rightarrow> js_error + string \<Rightarrow> js_error + string
     \<Rightarrow> ClawChatClient \<Rightarrow> string promise \<times> ClawChatClient"
where
  "sendImage rid uri filename fetched uploaded resp st =
     (case client st of
        None \<Rightarrow> (Rejected (Error ''Client not initialized''), st)
      | Some c \<Rightarrow>
          (let st1 = call (Fetch uri) st in
           case fetched of
             Inl e \<Rightarrow> (Rejected e, st1)
           | Inr blob \<Rightarrow>
               (let st2 = call (UploadContent filename (blob_type blob)) st1 in
                case uploaded of
                  Inl e \<Rightarrow> (Rejected e, st2)
                | Inr content_uri \<Rightarrow>
                    (let st3 = call (SendImageMessage rid content_uri filename) st2 in
                     case resp of
                       Inl e \<Rightarrow> (Rejected e, st3)
                     | Inr event_id \<Rightarrow> (Resolved event_id, st3)))))"

subsection \<open>From timeline events to messages\<close>

definition getMessageType :: "string option \<Rightarrow> MessageType" where
  "getMessageType m =
     (if m = Some ''m.image'' then ImageMsg
      else if m = Some ''m.file'' then FileMsg
      else if m = Some ''m.notice'' then NoticeMsg
      else TextMsg)"

definition getMember :: "SdkRoom \<Rightarrow> string \<Rightarrow> RoomMember option" where
  "getMember room uid = find (\<lambda>m. member_userId m = uid) (members room)"

definition getJoinedMembers :: "SdkRoom \<Rightarrow> RoomMember list" where
  "getJoinedMembers room = filter (\<lambda>m. membership m = ''join'') (members room)"

definition getRoom :: "MatrixClient \<Rightarrow> string \<Rightarrow> SdkRoom option" where
  "getRoom c rid = find (\<lambda>r. sdk_roomId r = rid) (getRooms_sdk c)"

text \<open>
  \<open>eventToMessage(event, room)\<close>: \<open>null\<close> when the content has no body or an empty
  one.
\<close>

definition eventToMessage :: "ClawChatClient \<Rightarrow> MatrixEvent \<Rightarrow> SdkRoom \<Rightarrow> Message option" where
  "eventToMessage st event room =
     (case content_body (getContent event) of
        None \<Rightarrow> None
      | Some b \<Rightarrow>
          if b = [] then None
          else Some
            \<lparr>msgId = getId event,
             roomId = sdk_roomId room,
             sender = getSender event,
             senderName = (case getMember room (getSender event) of
                             None \<Rightarrow> getSender event
                           | Some m \<Rightarrow> if member_name m = [] then getSender event else member_name m),
             body = b,
             timestamp = getTs event,
             msgType = getMessageType (content_msgtype (getContent event)),
             isMe = (case client st of
                       None \<Rightarrow> False
                     | Some c \<Rightarrow> getUserId_sdk c = Some (getSender event)),
             encrypted = isEncrypted event,
             verified = (case isVerified event of None \<Rightarrow> False | Some v \<Rightarrow> v)\<rparr>)"

definition decryptEventIfNeeded :: "MatrixEvent \<Rightarrow> js_error + MatrixEvent" where
  "decryptEventIfNeeded event =
     (case decryptOutcome event of
        Inl e \<Rightarrow> Inl e
      | Inr c \<Rightarrow> Inr (event\<lparr>getContent := c\<rparr>))"

text \<open>
  The step both the timeline listener and \<open>getMessages\<close> take first: decrypt when the
  event is encrypted and crypto is enabled, with the error caught and only logged.
\<close>

definition decryptCaught :: "ClawChatClient \<Rightarrow> MatrixEvent \<Rightarrow> MatrixEvent" where
  "decryptCaught st event =
     (if isEncrypted event \<and> isE2EEEnabled st
      then (case decryptEventIfNeeded event of Inl e \<Rightarrow> event | Inr event' \<Rightarrow> event')
      else event)"




text \<open>\<open>slice(-n)\<close> of an array: the last \<open>n\<close> elements; \<open>slice(-0)\<close> is the whole array.\<close>

definition slice_last :: "nat \<Rightarrow> 'a list \<Rightarrow> 'a list" where
  "slice_last n xs = (if n = 0 then xs else drop (length xs - n) xs)"

definition getMessages ::
  "string \<Rightarrow> nat \<Rightarrow> ClawChatClient \<Rightarrow> Message list promise"
where
  "getMessages rid limit st =
     (case client st of
        None \<Rightarrow> Rejected (Error ''Client not initialized'')
      | Some c \<Rightarrow>
          (case getRoom c rid of
             None \<Rightarrow> Resolved []
           | Some room \<Rightarrow>
               Resolved
                 (List.map_filter (\<lambda>event. eventToMessage st (decryptCaught st event) room)
                    (slice_last limit
                       (filter (\<lambda>e. getType e = ''m.room.message'') (liveTimeline room))))))"

subsection \<open>Rooms\<close>

text \<open>The test of the loop in \<open>getOrCreateBotRoom\<close>.\<close>

definition isDmWith :: "string \<Rightarrow> SdkRoom \<Rightarrow> bool" where
  "isDmWith botUserId room =
     (length (getJoinedMembers room) = 2
      \<and> list_ex (\<lambda>m. member_userId m = botUserId) (getJoinedMembers room))"

text \<open>
  \<open>getOrCreateBotRoom(botUserId, enableEncryption)\<close>; \<open>resp\<close> is the answer of
  \<open>createRoom\<close>, should it be asked. The flag logged with \<open>CreateRoom\<close> says whether the
  initial state holds the encryption event.
\<close>

definition getOrCreateBotRoom ::
  "string \<Rightarrow> bool \<Rightarrow> js_error + string \<Rightarrow> ClawChatClient \<Rightarrow> string promise \<times> ClawChatClient"
where
  "getOrCreateBotRoom botUserId enableEncryption resp st =
     (case client st of
        None \<Rightarrow> (Rejected (Error ''Client not initialized''), st)
      | Some c \<Rightarrow>
          (case find (isDmWith botUserId) (getRooms_sdk c) of
             Some room \<Rightarrow> (Resolved (sdk_roomId room), st)
           | None \<Rightarrow>
               (let st1 = call (CreateRoom botUserId (enableEncryption \<and> isE2EEEnabled st)) st in
                case resp of
                  Inl e \<Rightarrow> (Rejected e, st1)
                | Inr room_id \<Rightarrow> (Resolved room_id, st1))))"

subsection \<open>The chat store (\<open>store/chat.ts\<close>)\<close>

text \<open>
  The state of the Zustand store. \<open>messages\<close> maps a room id to the room's list. Each
  action is a function of the state; what the client answers when the action calls it
  (the rooms of \<open>getRooms()\<close>, the promise of \<open>getMessages\<close>, \<open>sendMessage\<close> and so
  on) is an argument, and the state returned is the one after the action's last \<open>set\<close>.
\<close>

record ChatState =
  rooms :: "Room list"
  currentRoomId :: "string option"
  messages :: "string \<rightharpoonup> Message list"
  isLoading :: bool
  isSending :: bool
  error :: "string option"
  e2eeEnabled :: bool

definition initialChatState :: ChatState where
  "initialChatState =
     \<lparr>rooms = [], currentRoomId = None, messages = Map.empty, isLoading = False,
      isSending = False, error = None, e2eeEnabled = False\<rparr>"

text \<open>\<open>state.messages[roomId] || []\<close>.\<close>

definition roomMessages :: "ChatState \<Rightarrow> string \<Rightarrow> Message list" where
  "roomMessages state rid = (case messages state rid of None \<Rightarrow> [] | Some ms \<Rightarrow> ms)"

text \<open>The listener \<open>initialize\<close> registers with \<open>client.onMessage\<close>.\<close>

definition onMessageHandler :: "Message \<Rightarrow> ChatState \<Rightarrow> ChatState" where
  "onMessageHandler message state =
     (let roomMsgs = roomMessages state (roomId message) in
      if list_ex (\<lambda>m. msgId m = msgId message) roomMsgs then state
      else state\<lparr>messages := (messages state)(roomId message \<mapsto> roomMsgs @ [message])\<rparr>)"

text \<open>The listener registered with \<open>client.onRoomUpdate\<close>.\<close>

definition onRoomUpdateHandler :: "Room list \<Rightarrow> ChatState \<Rightarrow> ChatState" where
  "onRoomUpdateHandler rs state = state\<lparr>rooms := rs\<rparr>"

definition initialize :: "Room list \<Rightarrow> ChatState \<Rightarrow> ChatState" where
  "initialize rs state = state\<lparr>rooms := rs\<rparr>"

definition setCurrentRoomId :: "string option \<Rightarrow> ChatState \<Rightarrow> ChatState" where
  "setCurrentRoomId rid state = state\<lparr>currentRoomId := rid\<rparr>"

definition checkE2EEStatus :: "bool \<Rightarrow> ChatState \<Rightarrow> ChatState" where
  "checkE2EEStatus enabled state = state\<lparr>e2eeEnabled := enabled\<rparr>"

text \<open>\<open>error.message || fallback\<close>.\<close>

definition errorMessage :: "js_error \<Rightarrow> string \<Rightarrow> string" where
  "errorMessage e fallback = (case e of Error m \<Rightarrow> if m = [] then fallback else m)"

text \<open>
  \<open>loadMessages(roomId)\<close>; \<open>answer\<close> is the promise of \<open>client.getMessages(roomId,
  100)\<close>. The room's list is replaced by the list the client returns.
\<close>

definition loadMessages :: "string \<Rightarrow> Message list promise \<Rightarrow> ChatState \<Rightarrow> ChatState" where
  "loadMessages rid answer state =
     (case answer of
        Resolved msgs \<Rightarrow> state\<lparr>isLoading := False, messages := (messages state)(rid \<mapsto> msgs)\<rparr>
      | Rejected e \<Rightarrow>
          state\<lparr>isLoading := False, error := Some (errorMessage e ''Failed to load messages'')\<rparr>
      | Pending \<Rightarrow> state\<lparr>isLoading := True\<rparr>)"

definition setCurrentRoom :: "string \<Rightarrow> Message list promise \<Rightarrow> ChatState \<Rightarrow> ChatState" where
  "setCurrentRoom rid answer state = loadMessages rid answer (state\<lparr>currentRoomId := Some rid\<rparr>)"

text \<open>
  \<open>trim()\<close> removes the white space and the line terminators of ECMAScript from both
  ends: TAB, LF, VT, FF, CR, SP, NBSP, U+1680, U+2000 to U+200A, LS, PS, U+202F, U+205F,
  U+3000 and U+FEFF.
\<close>

definition isSpace :: "16 word \<Rightarrow> bool" where
  "isSpace c =
     (c \<in> set [0x09, 0x0A, 0x0B, 0x0C, 0x0D, 0x20, 0xA0, 0x1680, 0x2028, 0x2029, 0x202F,
                0x205F, 0x3000, 0xFEFF]
      \<or> (0x2000 \<le> c \<and> c \<le> 0x200A))"

definition trim :: "jsstring \<Rightarrow> jsstring" where
  "trim s = rev (dropWhile isSpace (rev (dropWhile isSpace s)))"

text \<open>
  The store's \<open>sendMessage(text)\<close> and \<open>sendImage(uri, filename)\<close>; \<open>answer\<close> is the
  promise of the client's method of the same name.
\<close>

definition sendMessage_store :: "jsstring \<Rightarrow> string promise \<Rightarrow> ChatState \<Rightarrow> ChatState" where
  "sendMessage_store txt answer state =
     (if \<not> truthy (currentRoomId state) \<or> trim txt = [] then state
      else case answer of
             Resolved _ \<Rightarrow> state\<lparr>isSending := False\<rparr>
           | Rejected e \<Rightarrow>
               state\<lparr>isSending := False, error := Some (errorMessage e ''Failed to send message'')\<rparr>
           | Pending \<Rightarrow> state\<lparr>isSending := True\<rparr>)"

definition sendImage_store :: "string \<Rightarrow> string \<Rightarrow> string promise \<Rightarrow> ChatState \<Rightarrow> ChatState" where
  "sendImage_store uri filename answer state =
     (if \<not> truthy (currentRoomId state) then state
      else case answer of
             Resolved _ \<Rightarrow> state\<lparr>isSending := False\<rparr>
           | Rejected e \<Rightarrow>
               state\<lparr>isSending := False, error := Some (errorMessage e ''Failed to send image'')\<rparr>
           | Pending \<Rightarrow> state\<lparr>isSending := True\<rparr>)"

text \<open>
  \<open>startBotChat(botUserId, enableE2EE)\<close>; \<open>answer\<close> is the promise of
  \<open>getOrCreateBotRoom\<close>, \<open>rs\<close> the rooms of \<open>getRooms()\<close> and \<open>loaded\<close> the promise of
  the \<open>getMessages\<close> call that \<open>loadMessages\<close> makes for the room.
\<close>

definition startBotChat ::
  "string promise \<Rightarrow> Room list \<Rightarrow> Message list promise \<Rightarrow> ChatState \<Rightarrow> string promise \<times> ChatState"
where
  "startBotChat answer rs loaded state =
     (case answer of
        Resolved rid \<Rightarrow>
          (Resolved rid,
           loadMessages rid loaded (state\<lparr>rooms := rs, currentRoomId := Some rid, isLoading := False\<rparr>))
      | Rejected e \<Rightarrow>
          (Rejected e,
           state\<lparr>isLoading := False, error := Some (errorMessage e ''Failed to start chat with bot'')\<rparr>)
      | Pending \<Rightarrow> (Pending, state\<lparr>isLoading := True\<rparr>))"

definition refresh :: "Room list \<Rightarrow> ChatState \<Rightarrow> ChatState" where
  "refresh rs state = state\<lparr>rooms := rs\<rparr>"

text \<open>Everything that can act on the store, with the client's answers.\<close>

datatype store_action =
    Initialize "Room list"
  | OnMessage Message
  | OnRoomUpdate "Room list"
  | SetCurrentRoom string "Message list promise"
  | SetCurrentRoomId "string option"
  | CheckE2EEStatus bool
  | LoadMessages string "Message list promise"
  | StoreSendMessage jsstring "string promise"
  | StoreSendImage string string "string promise"
  | StartBotChat "string promise" "Room list" "Message list promise"
  | Refresh "Room list"

fun apply_action :: "store_action \<Rightarrow> ChatState \<Rightarrow> ChatState" where
  "apply_action (Initialize rs) state = initialize rs state"
| "apply_action (OnMessage m) state = onMessageHandler m state"
| "apply_action (OnRoomUpdate rs) state = onRoomUpdateHandler rs state"
| "apply_action (SetCurrentRoom rid answer) state = setCurrentRoom rid answer state"
| "apply_action (SetCurrentRoomId rid) state = setCurrentRoomId rid state"
| "apply_action (CheckE2EEStatus enabled) state = checkE2EEStatus enabled state"
| "apply_action (LoadMessages rid answer) state = loadMessages rid answer state"
| "apply_action (StoreSendMessage txt answer) state = sendMessage_store txt answer state"
| "apply_action (StoreSendImage uri filename answer) state = sendImage_store uri filename answer state"
| "apply_action (StartBotChat answer rs loaded) state = snd (startBotChat answer rs loaded state)"
| "apply_action (Refresh rs) state = refresh rs state"

definition run_actions :: "store_action list \<Rightarrow> ChatState \<Rightarrow> ChatState" where
  "run_actions actions state = foldl (\<lambda>s a. apply_action a s) state actions"

text \<open>The invariant: no room's list holds two messages with the same id.\<close>

definition noDuplicateIds :: "ChatState \<Rightarrow> bool" where
  "noDuplicateIds state = (\<forall>rid msgs. messages state rid = Some msgs \<longrightarrow> distinct (map msgId msgs))"

text \<open>
  The room and the list of messages an action installs from the client, if it installs
  one: the list \<open>client.getMessages(roomId, 100)\<close> resolved with.
\<close>

fun loadedList :: "store_action \<Rightarrow> (string \<times> Message list) option" where
  "loadedList (SetCurrentRoom rid (Resolved msgs)) = Some (rid, msgs)"
| "loadedList (LoadMessages rid (Resolved msgs)) = Some (rid, msgs)"
| "loadedList (StartBotChat (Resolved rid) rs (Resolved msgs)) = Some (rid, msgs)"
| "loadedList _ = None"

definition loadsDistinct :: "store_action \<Rightarrow> bool" where
  "loadsDistinct a =
     (case loadedList a of None \<Rightarrow> True | Some (rid, msgs) \<Rightarrow> distinct (map msgId msgs))"

text \<open>
  What the SDK guarantees of a room's live timeline: it holds no event id twice. The
  client of the state may be absent and the room unknown; \<open>getMessages\<close> then reads no
  timeline.
\<close>

definition timelineUnique :: "string \<Rightarrow> ClawChatClient \<Rightarrow> bool" where
  "timelineUnique rid cst =
     (case client cst of
        None \<Rightarrow> True
      | Some c \<Rightarrow>
          (case getRoom c rid of
             None \<Rightarrow> True
           | Some room \<Rightarrow> distinct (map getId (liveTimeline room))))"

subsection \<open>The bot (\<open>handleMessage\<close> of the standalone bot)\<close>

datatype Role = RoleUser | RoleAssistant

text \<open>
  One entry of a conversation history. The content of a user entry is the event's
  \<open>content.body\<close>, \<open>None\<close> where the content has none.
\<close>

record Turn =
  role :: Role
  turn_content :: "string option"

datatype ContentBlock = TextBlock string | OtherBlock string

text \<open>
  The calls the bot makes, in order: typing notices, the completion request (model,
  \<open>max_tokens\<close>, system prompt, messages) and text messages sent to the room.
\<close>

datatype bot_call =
    SendTyping string bool nat
  | MessagesCreate string nat string "Turn list"
  | BotSendTextMessage string string

record BotConfig =
  matrixUserId :: string
  model :: string

text \<open>The module state: the \<open>conversations\<close> map, and the log of calls made.\<close>

record BotState =
  conversations :: "string \<rightharpoonup> Turn list"
  botCalls :: "bot_call list"

definition botCall :: "bot_call \<Rightarrow> BotState \<Rightarrow> BotState" where
  "botCall c st = st\<lparr>botCalls := botCalls st @ [c]\<rparr>"

fun join :: "string \<Rightarrow> string list \<Rightarrow> string" where
  "join sep [] = []"
| "join sep [x] = x"
| "join sep (x # y # ys) = x @ sep @ join sep (y # ys)"

definition blockTexts :: "ContentBlock list \<Rightarrow> string list" where
  "blockTexts blocks = concat (map (\<lambda>b. case b of TextBlock t \<Rightarrow> [t] | OtherBlock _ \<Rightarrow> []) blocks)"

definition systemPrompt :: "string \<Rightarrow> string" where
  "systemPrompt senderId =
     ''You are ClawChat AI, a helpful and friendly assistant. You're chatting with users ''
     @ ''through a messaging app. Keep responses concise and conversational. ''
     @ ''The current user's Matrix ID is '' @ senderId @ ''.''"

definition apology :: string where
  "apology = ''I'm having trouble processing that right now. Please try again.''"

text \<open>The \<open>catch\<close> block of \<open>handleMessage\<close>; \<open>sent\<close> is the outcome of its send.\<close>

definition sendApology :: "string \<Rightarrow> js_error + unit \<Rightarrow> BotState \<Rightarrow> unit promise \<times> BotState" where
  "sendApology rid sent st =
     (let st1 = botCall (BotSendTextMessage rid apology) (botCall (SendTyping rid False 0) st) in
      case sent of Inl e \<Rightarrow> (Rejected e, st1) | Inr _ \<Rightarrow> (Resolved (), st1))"

text \<open>
  \<open>handleMessage(event, room)\<close>. \<open>completion\<close> is the answer of the completion
  service (its content blocks, or the error thrown), \<open>replySent\<close> the outcome of sending
  the reply and \<open>apologySent\<close> that of sending the apology. \<open>history.push\<close> acts on the
  array stored in the map when there is one, so the stored history grows by the user's
  entry even when the request fails; \<open>slice(-20)\<close> makes a copy.
\<close>

definition handleMessage ::
  "BotConfig \<Rightarrow> MatrixEvent \<Rightarrow> SdkRoom \<Rightarrow> js_error + ContentBlock list \<Rightarrow> js_error + unit
     \<Rightarrow> js_error + unit \<Rightarrow> BotState \<Rightarrow> unit promise \<times> BotState"
where
  "handleMessage cfg event room completion replySent apologySent st =
     (if getSender event = matrixUserId cfg then (Resolved (), st)
      else if getType event \<noteq> ''m.room.message'' then (Resolved (), st)
      else if content_msgtype (getContent event) \<noteq> Some ''m.text'' then (Resolved (), st)
      else
        (let rid = sdk_roomId room;
             userTurn = \<lparr>role = RoleUser, turn_content = content_body (getContent event)\<rparr>;
             pushed = (case conversations st rid of None \<Rightarrow> [] | Some h \<Rightarrow> h) @ [userTurn];
             st1 = (case conversations st rid of
                      None \<Rightarrow> st
                    | Some h \<Rightarrow> st\<lparr>conversations := (conversations st)(rid \<mapsto> pushed)\<rparr>);
             history = (if length pushed > 20 then slice_last 20 pushed else pushed);
             st2 = botCall (MessagesCreate (model cfg) 4096 (systemPrompt (getSender event)) history)
                     (botCall (SendTyping rid True 30000) st1)
         in case completion of
              Inl e \<Rightarrow> sendApology rid apologySent st2
            | Inr blocks \<Rightarrow>
                (let assistantMessage = join [CHR 0x0A] (blockTexts blocks);
                     st3 = st2\<lparr>conversations := (conversations st2)
                                 (rid \<mapsto> history @ [\<lparr>role = RoleAssistant,
                                                      turn_content = Some assistantMessage\<rparr>])\<rparr>;
                     st4 = botCall (BotSendTextMessage rid assistantMessage)
                             (botCall (SendTyping rid False 0) st3)
                 in case replySent of
                      Inl e \<Rightarrow> sendApology rid apologySent st4
                    | Inr _ \<Rightarrow> (Resolved (), st4))))"

text \<open>
  The events \<open>handleMessage\<close> does not return early on, and the last 20 entries of the
  room's stored history followed by the new user entry.
\<close>

definition handled :: "BotConfig \<Rightarrow> MatrixEvent \<Rightarrow> bool" where
  "handled cfg event =
     (getSender event \<noteq> matrixUserId cfg \<and> getType event = ''m.room.message''
      \<and> content_msgtype (getContent event) = Some ''m.text'')"

definition historySent :: "MatrixEvent \<Rightarrow> SdkRoom \<Rightarrow> BotState \<Rightarrow> Turn list" where
  "historySent event room st =
     (let all = (case conversations st (sdk_roomId room) of None \<Rightarrow> [] | Some h \<Rightarrow> h)
                  @ [\<lparr>role = RoleUser, turn_content = content_body (getContent event)\<rparr>]
      in drop (length all - 20) all)"

text \<open>One incoming event with the answers its handling receives, and a run of them.\<close>

record BotInput =
  in_event :: MatrixEvent
  in_room :: SdkRoom
  in_completion :: "js_error + ContentBlock list"
  in_replySent :: "js_error + unit"
  in_apologySent :: "js_error + unit"

definition handleInput :: "BotConfig \<Rightarrow> BotInput \<Rightarrow> BotState \<Rightarrow> BotState" where
  "handleInput cfg i st =
     snd (handleMessage cfg (in_event i) (in_room i) (in_completion i) (in_replySent i)
            (in_apologySent i) st)"

definition handleAll :: "BotConfig \<Rightarrow> BotInput list \<Rightarrow> BotState \<Rightarrow> BotState" where
  "handleAll cfg inputs st = foldl (\<lambda>s i. handleInput cfg i s) st inputs"

text \<open>The histories handed to the completion service, in the order of the requests.\<close>

definition requestHistories :: "bot_call list \<Rightarrow> Turn list list" where
  "requestHistories calls =
     concat (map (\<lambda>c. case c of MessagesCreate _ _ _ h \<Rightarrow> [h] | _ \<Rightarrow> []) calls)"

definition initialBotState :: BotState where
  "initialBotState = \<lparr>conversations = Map.empty, botCalls = []\<rparr>"

subsection \<open>Strings and \<open>Buffer\<close>\<close>

text \<open>
  \<open>Buffer\<close> looks at the code units of a string: the text that is encrypted and the
  ciphertext are therefore \<open>jsstring\<close>s. The bytes of a \<open>Buffer\<close> are numbers below 256.

  \<open>Buffer\<close> is the class of the \<open>buffer\<close> package, which the polyfills install as
  \<open>global.Buffer\<close>. \<open>Buffer.from(s)\<close> encodes \<open>s\<close> in UTF-8 with the package's
  \<open>utf8ToBytes\<close>, a loop over the code units that remembers a lead surrogate in
  \<open>leadSurrogate\<close> until it has seen the next unit: a lead surrogate followed by a trail
  surrogate is one code point of four bytes; a trail surrogate without a lead before it,
  a lead surrogate that is the only pending one at the last index, and a remembered lead
  surrogate followed by anything but a trail surrogate are each replaced by U+FFFD (the
  bytes EF BF BD); a lead surrogate still remembered when the loop ends is dropped. The
  shifts and masks of the encoder are written with \<open>div\<close> and \<open>mod\<close>.
\<close>

definition units :: "jsstring \<Rightarrow> nat list" where
  "units s = map unat s"

definition fromUnits :: "nat list \<Rightarrow> jsstring" where
  "fromUnits us = map of_nat us"

definition isLead :: "nat \<Rightarrow> bool" where
  "isLead u = (0xD800 \<le> u \<and> u \<le> 0xDBFF)"

definition isTrail :: "nat \<Rightarrow> bool" where
  "isTrail u = (0xDC00 \<le> u \<and> u \<le> 0xDFFF)"

definition replacement :: "nat list" where
  "replacement = [0xEF, 0xBF, 0xBD]"

definition encodeCodePoint :: "nat \<Rightarrow> nat list" where
  "encodeCodePoint cp =
     (if cp < 0x80 then [cp]
      else if cp < 0x800 then [cp div 64 + 0xC0, cp mod 64 + 0x80]
      else if cp < 0x10000 then [cp div 4096 + 0xE0, cp div 64 mod 64 + 0x80, cp mod 64 + 0x80]
      else [cp div 262144 + 0xF0, cp div 4096 mod 64 + 0x80, cp div 64 mod 64 + 0x80,
            cp mod 64 + 0x80])"

fun utf8Loop :: "nat option \<Rightarrow> nat list \<Rightarrow> nat list" where
  "utf8Loop leadSurrogate [] = []"
| "utf8Loop leadSurrogate (codePoint # rest) =
     (if codePoint > 0xD7FF \<and> codePoint < 0xE000 then
        (case leadSurrogate of
           None \<Rightarrow>
             if codePoint > 0xDBFF then replacement @ utf8Loop None rest
             else if rest = [] then replacement @ utf8Loop None rest
             else utf8Loop (Some codePoint) rest
         | Some lead \<Rightarrow>
             if codePoint < 0xDC00 then replacement @ utf8Loop (Some codePoint) rest
             else encodeCodePoint ((lead - 0xD800) * 1024 + (codePoint - 0xDC00) + 0x10000)
                    @ utf8Loop None rest)
      else
        (case leadSurrogate of
           None \<Rightarrow> encodeCodePoint codePoint @ utf8Loop None rest
         | Some lead \<Rightarrow> replacement @ encodeCodePoint codePoint @ utf8Loop None rest))"

definition utf8ToBytes :: "nat list \<Rightarrow> nat list" where
  "utf8ToBytes us = utf8Loop None us"

text \<open>
  \<open>buf.toString('utf-8')\<close>: the decoder of the \<open>buffer\<close> package. A sequence that
  is not the encoding of a code point gives U+FFFD and the decoder moves on by one byte;
  a code point above U+FFFF gives a surrogate pair.
\<close>

definition continuation :: "nat \<Rightarrow> bool" where
  "continuation b = (b div 64 = 2)"

definition codeUnitsOf :: "nat \<Rightarrow> nat list" where
  "codeUnitsOf cp =
     (if cp > 0xFFFF
      then [(cp - 0x10000) div 1024 mod 1024 + 0xD800, (cp - 0x10000) mod 1024 + 0xDC00]
      else [cp])"

fun utf8Slice :: "nat list \<Rightarrow> nat list" where
  "utf8Slice [] = []"
| "utf8Slice (b # bs) =
     (if b > 0xEF then
        (case bs of
           c # d # e # rest \<Rightarrow>
             (let cp = b mod 16 * 262144 + c mod 64 * 4096 + d mod 64 * 64 + e mod 64 in
              if continuation c \<and> continuation d \<and> continuation e \<and> cp > 0xFFFF \<and> cp < 0x110000
              then codeUnitsOf cp @ utf8Slice rest
              else 0xFFFD # utf8Slice bs)
         | _ \<Rightarrow> 0xFFFD # utf8Slice bs)
      else if b > 0xDF then
        (case bs of
           c # d # rest \<Rightarrow>
             (let cp = b mod 16 * 4096 + c mod 64 * 64 + d mod 64 in
              if continuation c \<and> continuation d \<and> cp > 0x7FF \<and> (cp < 0xD800 \<or> cp > 0xDFFF)
              then cp # utf8Slice rest
              else 0xFFFD # utf8Slice bs)
         | _ \<Rightarrow> 0xFFFD # utf8Slice bs)
      else if b > 0xBF then
        (case bs of
           c # rest \<Rightarrow>
             (let cp = b mod 32 * 64 + c mod 64 in
              if continuation c \<and> cp > 0x7F then cp # utf8Slice rest else 0xFFFD # utf8Slice bs)
         | _ \<Rightarrow> 0xFFFD # utf8Slice bs)
      else if b < 0x80 then b # utf8Slice bs
      else 0xFFFD # utf8Slice bs)"

text \<open>
  \<open>buf.toString('base64')\<close>: three bytes give four characters of the alphabet
  \<open>A-Z a-z 0-9 + /\<close>; a rest of one or two bytes is padded with \<open>=\<close>.
\<close>

definition base64Char :: "nat \<Rightarrow> nat" where
  "base64Char n =
     (if n < 26 then n + 65 else if n < 52 then n + 71 else if n < 62 then n - 4
      else if n = 62 then 43 else 47)"

fun base64Encode :: "nat list \<Rightarrow> nat list" where
  "base64Encode [] = []"
| "base64Encode [a] = [base64Char (a div 4), base64Char (a mod 4 * 16), 61, 61]"
| "base64Encode [a, b] =
     [base64Char (a div 4), base64Char (a mod 4 * 16 + b div 16), base64Char (b mod 16 * 4), 61]"
| "base64Encode (a # b # c # rest) =
     [base64Char (a div 4), base64Char (a mod 4 * 16 + b div 16),
      base64Char (b mod 16 * 4 + c div 64), base64Char (c mod 64)] @ base64Encode rest"

text \<open>
  \<open>Buffer.from(s, 'base64')\<close>: the input ends at the first \<open>=\<close>, characters outside
  the alphabet (and its URL-safe variants \<open>-\<close> and \<open>_\<close>) are skipped, and every four
  characters give three bytes; two or three left over give one or two.
\<close>

definition base64Value :: "nat \<Rightarrow> nat option" where
  "base64Value c =
     (if 65 \<le> c \<and> c \<le> 90 then Some (c - 65)
      else if 97 \<le> c \<and> c \<le> 122 then Some (c - 71)
      else if 48 \<le> c \<and> c \<le> 57 then Some (c + 4)
      else if c = 43 \<or> c = 45 then Some 62
      else if c = 47 \<or> c = 95 then Some 63
      else None)"

fun fromSextets :: "nat list \<Rightarrow> nat list" where
  "fromSextets (p # q # r # s # rest) =
     [p * 4 + q div 16, q mod 16 * 16 + r div 4, r mod 4 * 64 + s] @ fromSextets rest"
| "fromSextets [p, q, r] = [p * 4 + q div 16, q mod 16 * 16 + r div 4]"
| "fromSextets [p, q] = [p * 4 + q div 16]"
| "fromSextets _ = []"

definition base64Decode :: "nat list \<Rightarrow> nat list" where
  "base64Decode cs = fromSextets (List.map_filter base64Value (takeWhile (\<lambda>c. c \<noteq> 61) cs))"

text \<open>The values of the alphabet characters before the padding.\<close>

definition sextetsOf :: "nat list \<Rightarrow> nat list" where
  "sextetsOf cs = List.map_filter base64Value (takeWhile (\<lambda>c. c \<noteq> 61) cs)"

text \<open>
  \<open>Buffer.from(content).toString('base64')\<close> and
  \<open>Buffer.from(ciphertext, 'base64').toString('utf-8')\<close>.
\<close>

definition toBase64 :: "jsstring \<Rightarrow> jsstring" where
  "toBase64 content = fromUnits (base64Encode (utf8ToBytes (units content)))"

definition fromBase64 :: "jsstring \<Rightarrow> jsstring" where
  "fromBase64 ciphertext = fromUnits (utf8Slice (base64Decode (units ciphertext)))"

text \<open>
  A string without unpaired surrogates, and the string with each unpaired surrogate
  replaced by U+FFFD, except that a lead surrogate which ends the string directly after
  another unpaired lead surrogate is dropped.
\<close>

fun wellFormed :: "nat list \<Rightarrow> bool" where
  "wellFormed [] = True"
| "wellFormed [u] = (\<not> isLead u \<and> \<not> isTrail u)"
| "wellFormed (u # v # vs) =
     (if isLead u then isTrail v \<and> wellFormed vs else \<not> isTrail u \<and> wellFormed (v # vs))"

fun toWellFormed :: "nat list \<Rightarrow> nat list" where
  "toWellFormed [] = []"
| "toWellFormed [u] = (if isLead u \<or> isTrail u then [0xFFFD] else [u])"
| "toWellFormed (u # v # vs) =
     (if isLead u then
        (if isTrail v then u # v # toWellFormed vs
         else if isLead v \<and> vs = [] then [0xFFFD]
         else 0xFFFD # toWellFormed (v # vs))
      else if isTrail u then 0xFFFD # toWellFormed (v # vs)
      else u # toWellFormed (v # vs))"

subsection \<open>The crypto manager (\<open>CryptoManager\<close>)\<close>

record DeviceKeys =
  deviceId :: string
  curve25519 :: string
  ed25519 :: string

record EncryptedPayload =
  algorithm :: string
  senderKey :: string
  ciphertext :: jsstring
  sessionId :: string
  payload_deviceId :: string

text \<open>
  What a backup string decodes to. The base64 and JSON layers of the backup are not
  modelled: \<open>exportKeys\<close> returns this data and \<open>importKeys\<close> takes it, or \<open>None\<close> for
  a string at which \<open>JSON.parse\<close> throws. A backup here has its three fields, as
  \<open>exportKeys\<close> writes them, with \<open>deviceKeys\<close> possibly \<open>null\<close>; a string that parses
  to something without \<open>sessionKeys\<close> is not among the inputs of the model.
\<close>

record BackupData =
  backup_deviceKeys :: "DeviceKeys option"
  backup_sessionKeys :: "string \<rightharpoonup> string"
  backup_verifiedDevices :: "string list"

text \<open>
  The two entries the manager keeps in \<open>SecureStore\<close>: the device keys under
  \<open>clawchat_crypto_store\<close> and the verified devices under
  \<open>clawchat_verified_devices\<close>. An entry is \<open>None\<close> when the store has none, and
  otherwise the value whose JSON text it holds; for the device keys that value is
  \<open>null\<close> (\<open>Some None\<close>) after \<open>importKeys\<close> has written the keys of a backup that has
  none.
\<close>

record SecureStoreState =
  stored_crypto :: "DeviceKeys option option"
  stored_verified :: "string list option"

text \<open>
  The steps of \<open>encryptMessage\<close> that the claims order: a call of \<open>shareSessionKey\<close>
  (room, session id, recipient keys) and the production of a ciphertext for a room.
\<close>

datatype crypto_step =
    KeyShared string string "DeviceKeys list"
  | CiphertextProduced string jsstring

text \<open>
  The fields of the class, with the store it writes to and the steps taken so far.
  \<open>verifiedDevices\<close> is a JavaScript \<open>Set\<close>: its elements in insertion order,
  without repetition.
\<close>

record CryptoManager =
  deviceKeys :: "DeviceKeys option"
  sessionKeys :: "string \<rightharpoonup> string"
  verifiedDevices :: "string list"
  secureStore :: SecureStoreState
  steps :: "crypto_step list"

definition newCryptoManager :: CryptoManager where
  "newCryptoManager =
     \<lparr>deviceKeys = None, sessionKeys = Map.empty, verifiedDevices = [],
      secureStore = \<lparr>stored_crypto = None, stored_verified = None\<rparr>, steps = []\<rparr>"

text \<open>\<open>Set.add\<close> and \<open>new Set(array)\<close>.\<close>

definition setAdd :: "string \<Rightarrow> string list \<Rightarrow> string list" where
  "setAdd k xs = (if k \<in> set xs then xs else xs @ [k])"

definition setFromList :: "string list \<Rightarrow> string list" where
  "setFromList ks = foldl (\<lambda>acc k. setAdd k acc) [] ks"

definition generateDeviceKeys :: "string \<Rightarrow> DeviceKeys" where
  "generateDeviceKeys devId =
     \<lparr>deviceId = devId, curve25519 = ''curve25519_'' @ devId, ed25519 = ''ed25519_'' @ devId\<rparr>"

text \<open>
  \<open>initialize()\<close>; \<open>randomId\<close> is the device id \<open>generateDeviceId\<close> draws and
  \<open>written\<close> the outcome of the write to \<open>SecureStore\<close>. An entry found in the store
  is parsed and becomes the device keys, also when it is \<open>null\<close>; the promise resolves
  with it.
\<close>

definition initialize_crypto ::
  "string \<Rightarrow> js_error + unit \<Rightarrow> CryptoManager \<Rightarrow> DeviceKeys option promise \<times> CryptoManager"
where
  "initialize_crypto randomId written cm =
     (case stored_crypto (secureStore cm) of
        Some stored \<Rightarrow> (Resolved stored, cm\<lparr>deviceKeys := stored\<rparr>)
      | None \<Rightarrow>
          (let keys = generateDeviceKeys randomId;
               cm1 = cm\<lparr>deviceKeys := Some keys\<rparr>
           in case written of
                Inl e \<Rightarrow> (Rejected e, cm1)
              | Inr _ \<Rightarrow>
                  (Resolved (Some keys),
                   cm1\<lparr>secureStore := (secureStore cm1)\<lparr>stored_crypto := Some (Some keys)\<rparr>\<rparr>)))"

definition deviceKey :: "string \<Rightarrow> string \<Rightarrow> string" where
  "deviceKey uid did = uid @ '':'' @ did"

text \<open>\<open>verifyDevice(userId, deviceId)\<close>; \<open>written\<close> is the outcome of the write.\<close>

definition verifyDevice ::
  "string \<Rightarrow> string \<Rightarrow> js_error + unit \<Rightarrow> CryptoManager \<Rightarrow> unit promise \<times> CryptoManager"
where
  "verifyDevice uid did written cm =
     (let cm1 = cm\<lparr>verifiedDevices := setAdd (deviceKey uid did) (verifiedDevices cm)\<rparr> in
      case written of
        Inl e \<Rightarrow> (Rejected e, cm1)
      | Inr _ \<Rightarrow>
          (Resolved (),
           cm1\<lparr>secureStore := (secureStore cm1)\<lparr>stored_verified := Some (verifiedDevices cm1)\<rparr>\<rparr>))"

definition isDeviceVerified :: "string \<Rightarrow> string \<Rightarrow> CryptoManager \<Rightarrow> bool" where
  "isDeviceVerified uid did cm = (deviceKey uid did \<in> set (verifiedDevices cm))"

text \<open>The decimal digits of a number, as template strings print \<open>Date.now()\<close>.\<close>

fun decimal :: "nat \<Rightarrow> string" where
  "decimal n =
     (if n < 10 then [''0123456789'' ! n] else decimal (n div 10) @ [''0123456789'' ! (n mod 10)])"

declare decimal.simps [simp del]

definition createMegolmSession :: "string \<Rightarrow> nat \<Rightarrow> string" where
  "createMegolmSession rid now = ''session_'' @ rid @ ''_'' @ decimal now"

text \<open>\<open>shareSessionKey\<close> only logs; the model records that it was called, and with what.\<close>

definition shareSessionKey ::
  "string \<Rightarrow> string \<Rightarrow> DeviceKeys list \<Rightarrow> CryptoManager \<Rightarrow> CryptoManager"
where
  "shareSessionKey rid sid recipientKeys cm = cm\<lparr>steps := steps cm @ [KeyShared rid sid recipientKeys]\<rparr>"

text \<open>
  \<open>encryptMessage(roomId, content, recipientKeys)\<close>; \<open>now\<close> is \<open>Date.now()\<close>.
  \<open>!sessionId\<close> holds when the room has no entry or an empty one.
\<close>

definition encryptMessage ::
  "string \<Rightarrow> jsstring \<Rightarrow> DeviceKeys list \<Rightarrow> nat \<Rightarrow> CryptoManager
     \<Rightarrow> EncryptedPayload promise \<times> CryptoManager"
where
  "encryptMessage rid content recipientKeys now cm =
     (case deviceKeys cm of
        None \<Rightarrow> (Rejected (Error ''Crypto not initialized''), cm)
      | Some keys \<Rightarrow>
          (let sid = (if truthy (sessionKeys cm rid)
                      then (case sessionKeys cm rid of Some s \<Rightarrow> s | None \<Rightarrow> [])
                      else createMegolmSession rid now);
               cm1 = (if truthy (sessionKeys cm rid) then cm
                      else shareSessionKey rid sid recipientKeys
                             (cm\<lparr>sessionKeys := (sessionKeys cm)(rid \<mapsto> sid)\<rparr>));
               ct = toBase64 content
           in (Resolved \<lparr>algorithm = ''m.megolm.v1.aes-sha2'', senderKey = curve25519 keys,
                          ciphertext = ct, sessionId = sid, payload_deviceId = deviceId keys\<rparr>,
               cm1\<lparr>steps := steps cm1 @ [CiphertextProduced rid ct]\<rparr>)))"

definition decryptMessage :: "EncryptedPayload \<Rightarrow> CryptoManager \<Rightarrow> jsstring promise \<times> CryptoManager" where
  "decryptMessage payload cm = (Resolved (fromBase64 (ciphertext payload)), cm)"

definition exportKeys :: "string \<Rightarrow> CryptoManager \<Rightarrow> BackupData promise \<times> CryptoManager" where
  "exportKeys passphrase cm =
     (case deviceKeys cm of
        None \<Rightarrow> (Rejected (Error ''No keys to export''), cm)
      | Some keys \<Rightarrow>
          (Resolved \<lparr>backup_deviceKeys = Some keys, backup_sessionKeys = sessionKeys cm,
                     backup_verifiedDevices = verifiedDevices cm\<rparr>, cm))"

text \<open>
  \<open>importKeys(backup, passphrase)\<close>: the three fields are replaced by those of the
  backup, and the JSON text of the device keys is written to the store; \<open>written\<close> is
  the outcome of that write. For a string that does not parse the call rejects with the
  parser's \<open>SyntaxError\<close>, whose message is not reproduced.
\<close>

definition importKeys ::
  "BackupData option \<Rightarrow> string \<Rightarrow> js_error + unit \<Rightarrow> CryptoManager \<Rightarrow> unit promise \<times> CryptoManager"
where
  "importKeys backup passphrase written cm =
     (case backup of
        None \<Rightarrow> (Rejected (Error ''SyntaxError''), cm)
      | Some d \<Rightarrow>
          (let cm1 = cm\<lparr>deviceKeys := backup_deviceKeys d,
                         sessionKeys := backup_sessionKeys d,
                         verifiedDevices := setFromList (backup_verifiedDevices d)\<rparr>
           in case written of
                Inl e \<Rightarrow> (Rejected e, cm1)
              | Inr _ \<Rightarrow>
                  (Resolved (),
                   cm1\<lparr>secureStore := (secureStore cm1)\<lparr>stored_crypto := Some (backup_deviceKeys d)\<rparr>\<rparr>)))"

text \<open>
  The operations of the manager that touch its state, with their arguments and the
  answers they receive, and the state each leaves. \<open>getFingerprint\<close> reads nothing of
  the manager and is not listed.
\<close>

datatype crypto_op =
    OpInitialize string "js_error + unit"
  | OpVerifyDevice string string "js_error + unit"
  | OpIsDeviceVerified string string
  | OpEncryptMessage string jsstring "DeviceKeys list" nat
  | OpDecryptMessage EncryptedPayload
  | OpExportKeys string
  | OpImportKeys "BackupData option" string "js_error + unit"

fun apply_op :: "crypto_op \<Rightarrow> CryptoManager \<Rightarrow> CryptoManager" where
  "apply_op (OpInitialize randomId written) cm = snd (initialize_crypto randomId written cm)"
| "apply_op (OpVerifyDevice uid did written) cm = snd (verifyDevice uid did written cm)"
| "apply_op (OpIsDeviceVerified uid did) cm = cm"
| "apply_op (OpEncryptMessage rid content recipientKeys now) cm
     = snd (encryptMessage rid content recipientKeys now cm)"
| "apply_op (OpDecryptMessage payload) cm = snd (decryptMessage payload cm)"
| "apply_op (OpExportKeys passphrase) cm = snd (exportKeys passphrase cm)"
| "apply_op (OpImportKeys backup passphrase written) cm = snd (importKeys backup passphrase written cm)"

text \<open>
  A run of operations, and the operations that replace the session keys: an
  \<open>importKeys\<close> whose backup parses.
\<close>

definition run_ops :: "crypto_op list \<Rightarrow> CryptoManager \<Rightarrow> CryptoManager" where
  "run_ops ops cm = foldl (\<lambda>s op. apply_op op s) cm ops"

fun replacesSessions :: "crypto_op \<Rightarrow> bool" where
  "replacesSessions (OpImportKeys (Some d) passphrase written) = True"
| "replacesSessions _ = False"

definition keySharesFor :: "string \<Rightarrow> crypto_step list \<Rightarrow> crypto_step list" where
  "keySharesFor rid ss =
     filter (\<lambda>s. case s of KeyShared r _ _ \<Rightarrow> r = rid | CiphertextProduced _ _ \<Rightarrow> False) ss"

text \<open>
  The manager can encrypt and holds a non-empty session id for the room, and the store
  holds no \<open>null\<close> for the device keys.
\<close>

definition hasSession :: "string \<Rightarrow> string \<Rightarrow> CryptoManager \<Rightarrow> bool" where
  "hasSession rid sid cm =
     (deviceKeys cm \<noteq> None \<and> sessionKeys cm rid = Some sid \<and> sid \<noteq> []
      \<and> stored_crypto (secureStore cm) \<noteq> Some None)"

text \<open>\<open>decryptMessage(await encryptMessage(roomId, content, recipientKeys))\<close>.\<close>

definition roundTrip ::
  "string \<Rightarrow> jsstring \<Rightarrow> DeviceKeys list \<Rightarrow> nat \<Rightarrow> CryptoManager \<Rightarrow> jsstring promise"
where
  "roundTrip rid content recipientKeys now cm =
     (case encryptMessage rid content recipientKeys now cm of
        (Resolved payload, cm1) \<Rightarrow> fst (decryptMessage payload cm1)
      | (Rejected e, cm1) \<Rightarrow> Rejected e
      | (Pending, cm1) \<Rightarrow> Pending)"

subsection \<open>Concrete states used to exercise the theorems\<close>

definition exSession :: AuthSession where
  "exSession = \<lparr>accessToken = ''tok'', userId_s = ''@alice:clawchat.io'',
                 deviceId_s = ''DEV1'', homeserver_s = ''https://matrix.clawchat.io''\<rparr>"

definition exMember :: "string \<Rightarrow> string \<Rightarrow> RoomMember" where
  "exMember uid m = \<lparr>member_userId = uid, member_name = [], membership = m\<rparr>"

definition exRoom :: "string \<Rightarrow> RoomMember list \<Rightarrow> SdkRoom" where
  "exRoom rid ms = \<lparr>sdk_roomId = rid, members = ms, liveTimeline = []\<rparr>"

text \<open>
  Four rooms, in the order of \<open>getRooms()\<close>: a group of three that includes the bot, a
  room of two joined members without the bot, then two rooms shared with the bot alone
  (in the first of them a third user has left).
\<close>

definition exDm :: SdkRoom where
  "exDm = exRoom ''!dm1'' [exMember ''@alice:clawchat.io'' ''join'', exMember ''@carol:clawchat.io'' ''leave'',
                          exMember ''@clawbot:clawchat.io'' ''join'']"

definition exRooms :: "SdkRoom list" where
  "exRooms =
     [exRoom ''!group'' [exMember ''@alice:clawchat.io'' ''join'', exMember ''@clawbot:clawchat.io'' ''join'',
                         exMember ''@carol:clawchat.io'' ''join''],
      exRoom ''!carol'' [exMember ''@alice:clawchat.io'' ''join'', exMember ''@carol:clawchat.io'' ''join''],
      exDm,
      exRoom ''!dm2'' [exMember ''@alice:clawchat.io'' ''join'', exMember ''@clawbot:clawchat.io'' ''join'']]"

definition exCrypto :: CryptoApi where
  "exCrypto = \<lparr>getOwnDeviceKeys = Some \<lparr>own_ed25519 = ''ed25519key'', own_curve25519 = ''curvekey''\<rparr>\<rparr>"

text \<open>A client after a successful initialization with crypto, listening for messages.\<close>

definition exConnected :: ClawChatClient where
  "exConnected =
     (newClawChatClient None None)
       \<lparr>client := Some ((createClient exSession)
                          \<lparr>isCryptoEnabled := True, getCrypto := Some exCrypto,
                           getRooms_sdk := exRooms, timelineListener := True,
                           cryptoListeners := True\<rparr>),
        onMessageCallback := True\<rparr>"

text \<open>
  An encrypted event for a session this device does not know, as it arrives: it reports
  the wire type and its content is the ciphertext payload, which has no \<open>body\<close>.
\<close>

definition exUndecryptable :: MatrixEvent where
  "exUndecryptable =
     \<lparr>getId = ''$e1'', getType = ''m.room.encrypted'', getSender = ''@clawbot:clawchat.io'',
      getTs = 1700000000000,
      getContent = \<lparr>content_body = None, content_msgtype = None\<rparr>,
      isEncrypted = True, isVerified = None,
      decryptOutcome = Inl (Error ''unknown session'')\<rparr>"


definition exHello :: MatrixEvent where
  "exHello =
     \<lparr>getId = ''$e2'', getType = ''m.room.message'', getSender = ''@clawbot:clawchat.io'',
      getTs = 1700000000001,
      getContent = \<lparr>content_body = Some ''hello'', content_msgtype = Some ''m.text''\<rparr>,
      isEncrypted = False, isVerified = None,
      decryptOutcome = Inr \<lparr>content_body = Some ''hello'', content_msgtype = Some ''m.text''\<rparr>\<rparr>"

definition exHelloMessage :: Message where
  "exHelloMessage =
     \<lparr>msgId = ''$e2'', roomId = ''!dm1'', sender = ''@clawbot:clawchat.io'',
      senderName = ''@clawbot:clawchat.io'', body = ''hello'', timestamp = 1700000000001,
      msgType = TextMsg, isMe = False, encrypted = False, verified = False\<rparr>"

definition exMsg :: "string \<Rightarrow> string \<Rightarrow> Message" where
  "exMsg i b = exHelloMessage\<lparr>msgId := i, body := b\<rparr>"

text \<open>
  A connected client whose room \<open>!dm1\<close> has a live timeline of three events: two
  messages and an encrypted event that has not been decrypted.
\<close>

definition exLoaded :: ClawChatClient where
  "exLoaded =
     updClient (\<lambda>c. c\<lparr>getRooms_sdk :=
                        [exDm\<lparr>liveTimeline := [exHello, exUndecryptable, exHello\<lparr>getId := ''$e4''\<rparr>]\<rparr>]\<rparr>)
       exConnected"

definition exBotConfig :: BotConfig where
  "exBotConfig = \<lparr>matrixUserId = ''@clawbot:clawchat.io'', model = ''claude-sonnet-4-20250514''\<rparr>"

definition exUserEvent :: MatrixEvent where
  "exUserEvent = exHello\<lparr>getId := ''$e3'', getSender := ''@alice:clawchat.io''\<rparr>"

definition exTurn :: Turn where
  "exTurn = \<lparr>role = RoleAssistant, turn_content = Some ''earlier''\<rparr>"

definition exBotState :: BotState where
  "exBotState = \<lparr>conversations = [''!dm1'' \<mapsto> replicate 25 exTurn], botCalls = []\<rparr>"

text \<open>A manager after \<open>initialize()\<close> on an empty store, a recipient and a backup.\<close>

definition exManager :: CryptoManager where
  "exManager = snd (initialize_crypto ''ABCDEFGHIJ'' (Inr ()) newCryptoManager)"

definition exRecipient :: DeviceKeys where
  "exRecipient = generateDeviceKeys ''BOTDEVICE1''"

definition exBackup :: BackupData where
  "exBackup = \<lparr>backup_deviceKeys = Some (generateDeviceKeys ''ABCDEFGHIJ''),
                backup_sessionKeys = Map.empty, backup_verifiedDevices = []\<rparr>"

text \<open>The text \<open>H\<close>, e acute, the euro sign and an emoji (a surrogate pair).\<close>

definition exText :: jsstring where
  "exText = [0x48, 0xE9, 0x20AC, 0xD83D, 0xDE00]"

text \<open>
  Operations after a first message to \<open>!dm1\<close>: more messages to this and another room,
  a verification, a backup, an import of a string that does not parse and a second
  \<open>initialize()\<close>.
\<close>

definition exLater :: "crypto_op list" where
  "exLater =
     [OpEncryptMessage ''!dm1'' exText [] 7,
      OpVerifyDevice ''@clawbot:clawchat.io'' ''BOTDEVICE1'' (Inr ()),
      OpEncryptMessage ''!dm2'' exText [exRecipient] 8,
      OpExportKeys ''secret'',
      OpImportKeys None ''secret'' (Inr ()),
      OpInitialize ''KLMNOPQRST'' (Inr ()),
      OpEncryptMessage ''!dm1'' [] [exRecipient] 9]"


section \<open>Theorems\<close>

subsection \<open>Sending without a session\<close>

text \<open>
  C7. With no active session (\<open>client\<close> is null) \<open>sendMessage\<close> and \<open>sendImage\<close>
  both reject with the error \<open>Client not initialized\<close>, which is the code's form of the
  specification's NotConnectedError, whatever the room and the payload; the state after
  the call is the state before it, and in particular the log of SDK and network calls has
  no new entry: nothing was fetched, uploaded or sent.
\<close>

theorem not_connected_send_fails:
  assumes "client st = None"
  shows "sendMessage rid txt resp st = (Rejected (Error ''Client not initialized''), st)
       \<and> sendImage rid uri filename fetched uploaded resp' st
           = (Rejected (Error ''Client not initialized''), st)
       \<and> sdkCalls (snd (sendMessage rid txt resp st)) = sdkCalls st
       \<and> sdkCalls (snd (sendImage rid uri filename fetched uploaded resp' st)) = sdkCalls st"
  using assms by (simp add: sendMessage_def sendImage_def)

theorem not_connected_send_fails_witness:
  "client (newClawChatClient None None) = None
   \<and> sendMessage ''!dm1'' ''hi'' (Inr ''$sent'') (newClawChatClient None None)
        = (Rejected (Error ''Client not initialized''), newClawChatClient None None)
   \<and> sendImage ''!dm1'' ''file:///a.png'' ''a.png''
        (Inr \<lparr>blob_type = ''image/png'', blob_size = 10\<rparr>) (Inr ''mxc://a'') (Inr ''$sent'')
        (newClawChatClient None None)
        = (Rejected (Error ''Client not initialized''), newClawChatClient None None)"
proof -
  have h: "client (newClawChatClient None None) = None"
    by (simp add: newClawChatClient_def)
  from not_connected_send_fails [OF h] h show ?thesis by blast
qed

subsection \<open>Resolving the direct room\<close>

lemma find_isDmWith_first:
  assumes "find P xs = Some r"
  shows "\<exists>i<length xs. r = xs ! i \<and> P (xs ! i) \<and> (\<forall>j<i. \<not> P (xs ! j))"
  using assms by (auto simp: find_Some_iff)

lemma find_exists:
  assumes "x \<in> set xs" and "P x"
  shows "\<exists>r. find P xs = Some r"
  using assms by (cases "find P xs") (auto simp: find_None_iff)

text \<open>
  C3. In a state whose client knows a room with exactly two joined members, one of them
  the peer, \<open>getOrCreateBotRoom\<close> returns the id of the first room in the order of
  \<open>getRooms()\<close> that has exactly two joined members (members whose membership is
  \<open>join\<close>) one of whom has the peer's user id, and leaves the state as it was, so that
  no room is created; a second call, with any encryption flag, returns the same id and
  again changes nothing.
\<close>

theorem getOrCreateBotRoom_idempotent:
  assumes c: "client st = Some c"
    and r: "room \<in> set (getRooms_sdk c)"
    and two: "length [m \<leftarrow> members room. membership m = ''join''] = 2"
    and peer: "m \<in> set (members room)" "membership m = ''join''" "member_userId m = botUserId"
  shows "\<exists>i<length (getRooms_sdk c).
           length [m \<leftarrow> members (getRooms_sdk c ! i). membership m = ''join''] = 2
         \<and> (\<exists>m\<in>set (members (getRooms_sdk c ! i)).
                membership m = ''join'' \<and> member_userId m = botUserId)
         \<and> (\<forall>j<i. length [m \<leftarrow> members (getRooms_sdk c ! j). membership m = ''join''] \<noteq> 2
                  \<or> (\<forall>m\<in>set (members (getRooms_sdk c ! j)).
                         membership m = ''join'' \<longrightarrow> member_userId m \<noteq> botUserId))
         \<and> getOrCreateBotRoom botUserId e1 resp1 st
             = (Resolved (sdk_roomId (getRooms_sdk c ! i)), st)
         \<and> getOrCreateBotRoom botUserId e2 resp2 (snd (getOrCreateBotRoom botUserId e1 resp1 st))
             = (Resolved (sdk_roomId (getRooms_sdk c ! i)), st)"
proof -
  have dm: "\<And>x. isDmWith botUserId x
              = (length [m \<leftarrow> members x. membership m = ''join''] = 2
                 \<and> (\<exists>m\<in>set (members x). membership m = ''join'' \<and> member_userId m = botUserId))"
    by (auto simp: isDmWith_def list_ex_iff getJoinedMembers_def)
  have "isDmWith botUserId room"
    unfolding dm using two peer by blast
  then obtain found where f: "find (isDmWith botUserId) (getRooms_sdk c) = Some found"
    using find_exists [OF r] by blast
  from find_isDmWith_first [OF f]
  obtain i where i: "i < length (getRooms_sdk c)" "found = getRooms_sdk c ! i"
      "isDmWith botUserId (getRooms_sdk c ! i)" "\<forall>j<i. \<not> isDmWith botUserId (getRooms_sdk c ! j)"
    by blast
  have calls: "\<And>e resp. getOrCreateBotRoom botUserId e resp st
                 = (Resolved (sdk_roomId (getRooms_sdk c ! i)), st)"
    using c f i(2) by (simp add: getOrCreateBotRoom_def)
  have earlier: "\<forall>j<i. length [m \<leftarrow> members (getRooms_sdk c ! j). membership m = ''join''] \<noteq> 2
                  \<or> (\<forall>m\<in>set (members (getRooms_sdk c ! j)).
                         membership m = ''join'' \<longrightarrow> member_userId m \<noteq> botUserId)"
    using i(4) unfolding dm by blast
  show ?thesis
    using i(1) i(3) [unfolded dm] earlier by (intro exI [of _ i]) (simp add: calls)
qed

theorem getOrCreateBotRoom_idempotent_witness:
  "getOrCreateBotRoom ''@clawbot:clawchat.io'' True (Inr ''!new'') exConnected
     = (Resolved ''!dm1'', exConnected)
   \<and> getOrCreateBotRoom ''@clawbot:clawchat.io'' False (Inl (Error ''offline''))
       (snd (getOrCreateBotRoom ''@clawbot:clawchat.io'' True (Inr ''!new'') exConnected))
     = (Resolved ''!dm1'', exConnected)
   \<and> map sdk_roomId exRooms = [''!group'', ''!carol'', ''!dm1'', ''!dm2'']
   \<and> sdkCalls exConnected = []"
proof -
  let ?c = "(createClient exSession)
              \<lparr>isCryptoEnabled := True, getCrypto := Some exCrypto, getRooms_sdk := exRooms,
               timelineListener := True, cryptoListeners := True\<rparr>"
  let ?room = "exRooms ! 3"
  let ?bot = "''@clawbot:clawchat.io''"
  let ?two = "\<lambda>x. length [m \<leftarrow> members x. membership m = ''join''] = 2"
  let ?peer = "\<lambda>x. \<exists>m\<in>set (members x). membership m = ''join'' \<and> member_userId m = ?bot"
  have c: "client exConnected = Some ?c"
    by (simp add: exConnected_def)
  have rooms: "getRooms_sdk ?c = exRooms" by simp
  have r: "?room \<in> set (getRooms_sdk ?c)"
    by (simp add: exRooms_def)
  have two: "?two ?room"
    by (simp add: exRooms_def exRoom_def exMember_def)
  have peer: "exMember ?bot ''join'' \<in> set (members ?room)"
      "membership (exMember ?bot ''join'') = ''join''"
      "member_userId (exMember ?bot ''join'') = ?bot"
    by (simp_all add: exRooms_def exRoom_def exMember_def)
  from getOrCreateBotRoom_idempotent [OF c r two peer, of True "Inr ''!new''" False "Inl (Error ''offline'')"]
  obtain i where i: "i < length exRooms"
      "?two (exRooms ! i)" "?peer (exRooms ! i)"
      "\<forall>j<i. \<not> ?two (exRooms ! j) \<or> \<not> ?peer (exRooms ! j)"
      "getOrCreateBotRoom ?bot True (Inr ''!new'') exConnected
         = (Resolved (sdk_roomId (exRooms ! i)), exConnected)"
      "getOrCreateBotRoom ?bot False (Inl (Error ''offline''))
         (snd (getOrCreateBotRoom ?bot True (Inr ''!new'') exConnected))
         = (Resolved (sdk_roomId (exRooms ! i)), exConnected)"
    unfolding rooms by blast
  have r0: "\<not> ?two (exRooms ! 0)"
    by (simp add: exRooms_def exRoom_def exMember_def)
  have r1: "\<not> ?peer (exRooms ! 1)"
    by (simp add: exRooms_def exRoom_def exMember_def)
  have r2: "?two (exRooms ! 2)" "?peer (exRooms ! 2)"
    by (simp_all add: exRooms_def exDm_def exRoom_def exMember_def)
  have "i = 2"
  proof -
    have "\<not> 2 < i" using i(4) r2 by blast
    moreover have "i \<noteq> 0" using i(2) r0 by (cases "i = 0") simp_all
    moreover have "i \<noteq> 1" using i(3) r1 by (cases "i = 1") simp_all
    ultimately show ?thesis by arith
  qed
  moreover have "sdk_roomId (exRooms ! 2) = ''!dm1''"
    by (simp add: exRooms_def exDm_def exRoom_def)
  moreover have "map sdk_roomId exRooms = [''!group'', ''!carol'', ''!dm1'', ''!dm2'']"
    by (simp add: exRooms_def exDm_def exRoom_def)
  moreover have "sdkCalls exConnected = []"
    by (simp add: exConnected_def newClawChatClient_def)
  ultimately show ?thesis using i(5,6) by simp
qed

subsection \<open>The device fingerprint\<close>

text \<open>
  C9. \<open>getDeviceFingerprint()\<close> returns null exactly when encryption is unavailable:
  crypto is not enabled on the client (\<open>isE2EEEnabled\<close> is false, which includes the
  absence of a client), or there is no device id (\<open>getDeviceId\<close> is null), or the crypto
  API holds no own device key. Otherwise it returns a string, the own device's ed25519
  key. A device id or key that is the empty string counts as absent, as JavaScript's
  falsiness has it.
\<close>

theorem getDeviceFingerprint_null_iff:
  "(getDeviceFingerprint st = None) =
     (\<not> isE2EEEnabled st \<or> getDeviceId st = None \<or> ownDeviceKey st = None)
   \<and> (getDeviceFingerprint st = None \<or> getDeviceFingerprint st = ownDeviceKey st)"
  by (auto simp: getDeviceFingerprint_def isE2EEEnabled_def getDeviceId_def ownDeviceKey_def
        truthy_def split: option.splits)

theorem getDeviceFingerprint_null_iff_witness:
  "getDeviceFingerprint exConnected = Some ''ed25519key''
   \<and> isE2EEEnabled exConnected
   \<and> getDeviceId exConnected = Some ''DEV1''
   \<and> ownDeviceKey exConnected = Some ''ed25519key''
   \<and> getDeviceFingerprint (newClawChatClient None None) = None"
  using getDeviceFingerprint_null_iff [of exConnected]
    getDeviceFingerprint_null_iff [of "newClawChatClient None None"]
  by (simp add: getDeviceFingerprint_def isE2EEEnabled_def getDeviceId_def ownDeviceKey_def
        truthy_def exConnected_def newClawChatClient_def createClient_def exSession_def exCrypto_def)

subsection \<open>Crypto initialization failure\<close>




subsection \<open>Events that cannot be decrypted\<close>







subsection \<open>No duplicate message ids in the store\<close>

lemma onMessageHandler_inv:
  assumes "noDuplicateIds state"
  shows "noDuplicateIds (onMessageHandler m state)"
proof (cases "list_ex (\<lambda>x. msgId x = msgId m) (roomMessages state (roomId m))")
  case True
  then show ?thesis using assms by (simp add: onMessageHandler_def)
next
  case False
  then have fresh: "msgId m \<notin> msgId ` set (roomMessages state (roomId m))"
    by (auto simp: list_ex_iff)
  have old: "distinct (map msgId (roomMessages state (roomId m)))"
    using assms by (auto simp: noDuplicateIds_def roomMessages_def split: option.splits)
  have "distinct (map msgId (roomMessages state (roomId m) @ [m]))"
    using fresh old by simp
  then show ?thesis
    using assms False by (auto simp: onMessageHandler_def noDuplicateIds_def)
qed

lemma loadMessages_inv:
  assumes "noDuplicateIds state"
    and "\<And>msgs. answer = Resolved msgs \<Longrightarrow> distinct (map msgId msgs)"
  shows "noDuplicateIds (loadMessages rid answer state)"
  using assms by (cases answer) (auto simp: loadMessages_def noDuplicateIds_def)

lemma apply_action_inv:
  assumes "noDuplicateIds state" and "loadsDistinct a"
  shows "noDuplicateIds (apply_action a state)"
proof (cases a)
  case (OnMessage m)
  then show ?thesis using assms(1) by (simp add: onMessageHandler_inv)
next
  case (SetCurrentRoom rid answer)
  have "noDuplicateIds (state\<lparr>currentRoomId := Some rid\<rparr>)"
    using assms(1) by (simp add: noDuplicateIds_def)
  then show ?thesis
    using assms(2) SetCurrentRoom
    by (auto simp: setCurrentRoom_def loadsDistinct_def intro!: loadMessages_inv)
next
  case (LoadMessages rid answer)
  then show ?thesis
    using assms by (auto simp: loadsDistinct_def intro!: loadMessages_inv)
next
  case (StartBotChat answer rs loaded)
  show ?thesis
  proof (cases answer)
    case (Resolved rid)
    have "noDuplicateIds (state\<lparr>rooms := rs, currentRoomId := Some rid, isLoading := False\<rparr>)"
      using assms(1) by (simp add: noDuplicateIds_def)
    then show ?thesis
      using assms(2) StartBotChat Resolved
      by (auto simp: startBotChat_def loadsDistinct_def intro!: loadMessages_inv)
  next
    case (Rejected e)
    then show ?thesis using assms(1) StartBotChat by (simp add: startBotChat_def noDuplicateIds_def)
  next
    case Pending
    then show ?thesis using assms(1) StartBotChat by (simp add: startBotChat_def noDuplicateIds_def)
  qed
next
  case (StoreSendMessage body_text answer)
  then show ?thesis using assms(1)
    by (cases answer) (simp_all add: sendMessage_store_def noDuplicateIds_def)
next
  case (StoreSendImage uri filename answer)
  then show ?thesis using assms(1)
    by (cases answer) (simp_all add: sendImage_store_def noDuplicateIds_def)
qed (insert assms(1), simp_all add: noDuplicateIds_def initialize_def onRoomUpdateHandler_def
       setCurrentRoomId_def checkE2EEStatus_def refresh_def)

lemma run_actions_inv:
  assumes "noDuplicateIds state" and "\<forall>a\<in>set actions. loadsDistinct a"
  shows "noDuplicateIds (run_actions actions state)"
  using assms unfolding run_actions_def
proof (induction actions arbitrary: state)
  case Nil
  then show ?case by simp
next
  case (Cons a actions)
  then show ?case by (simp add: apply_action_inv)
qed

lemma other_actions_keep_messages:
  assumes "loadedList a = None" and "\<And>m. a \<noteq> OnMessage m"
  shows "messages (apply_action a state) = messages state"
proof (cases a)
  case (SetCurrentRoom rid answer)
  then show ?thesis using assms(1)
    by (cases answer) (simp_all add: setCurrentRoom_def loadMessages_def)
next
  case (LoadMessages rid answer)
  then show ?thesis using assms(1) by (cases answer) (simp_all add: loadMessages_def)
next
  case (StartBotChat answer rs loaded)
  then show ?thesis using assms(1)
    by (cases answer; cases loaded) (simp_all add: startBotChat_def loadMessages_def)
next
  case (StoreSendMessage body_text answer)
  then show ?thesis by (cases answer) (simp_all add: sendMessage_store_def)
next
  case (StoreSendImage uri filename answer)
  then show ?thesis by (cases answer) (simp_all add: sendImage_store_def)
qed (insert assms(2), simp_all add: initialize_def onRoomUpdateHandler_def
       setCurrentRoomId_def checkE2EEStatus_def refresh_def)

lemma decryptCaught_getId: "getId (decryptCaught st event) = getId event"
  by (simp add: decryptCaught_def decryptEventIfNeeded_def split: sum.splits)

lemma eventToMessage_msgId:
  "eventToMessage st event room = Some m \<Longrightarrow> msgId m = getId event"
  by (auto simp: eventToMessage_def split: option.splits if_splits)

lemma map_filter_ids_distinct:
  assumes "\<And>e m. f e = Some m \<Longrightarrow> msgId m = getId e"
    and "distinct (map getId es)"
  shows "distinct (map msgId (List.map_filter f es))"
  using assms(2)
proof (induction es)
  case Nil
  then show ?case by (simp add: List.map_filter_simps)
next
  case (Cons e es)
  have sub: "msgId ` set (List.map_filter f es) \<subseteq> getId ` set es"
    using assms(1) by (auto simp: List.map_filter_def) 
  show ?case
  proof (cases "f e")
    case None
    then show ?thesis using Cons by (simp add: List.map_filter_simps)
  next
    case (Some m)
    then have "msgId m = getId e" using assms(1) by simp
    then show ?thesis using Cons Some sub by (auto simp: List.map_filter_simps)
  qed
qed

lemma getMessages_distinct:
  assumes "timelineUnique rid st"
    and "getMessages rid limit st = Resolved msgs"
  shows "distinct (map msgId msgs)"
proof (cases "client st")
  case None
  then show ?thesis using assms(2) by (simp add: getMessages_def)
next
  case (Some c)
  show ?thesis
  proof (cases "getRoom c rid")
    case None
    then show ?thesis using assms(2) Some by (simp add: getMessages_def)
  next
    case (Some room)
    then have d: "distinct (map getId (liveTimeline room))"
      using assms(1) \<open>client st = Some c\<close> by (simp add: timelineUnique_def)
    have "distinct (map getId (slice_last limit (filter (\<lambda>e. getType e = ''m.room.message'') (liveTimeline room))))"
      using d by (simp add: slice_last_def distinct_map_filter distinct_drop drop_map [symmetric])
    then have "distinct (map msgId (List.map_filter (\<lambda>event. eventToMessage st (decryptCaught st event) room)
                    (slice_last limit (filter (\<lambda>e. getType e = ''m.room.message'') (liveTimeline room)))))"
      by (rule map_filter_ids_distinct [rotated])
         (insert eventToMessage_msgId decryptCaught_getId, fastforce)
    then show ?thesis
      using assms(2) Some \<open>client st = Some c\<close> by (auto simp: getMessages_def)
  qed
qed

lemma loadedList_installed:
  "loadedList a = Some (rid, msgs) \<Longrightarrow> messages (apply_action a state) = (messages state)(rid \<mapsto> msgs)"
  by (induction a rule: loadedList.induct)
     (auto simp: setCurrentRoom_def loadMessages_def startBotChat_def)

text \<open>
  C1. Every sequence of store actions keeps the invariant that no room's list holds two
  messages with the same id. The \<open>onMessage\<close> handler appends a message to the list of
  its room only when no message of that list has its id, and leaves the state alone
  otherwise; so, from the empty store, any sequence of message callbacks, duplicates
  included, leaves each id at most once. The actions that load a room (\<open>loadMessages\<close>,
  and \<open>setCurrentRoom\<close> and \<open>startBotChat\<close> through it) replace the room's list by the
  list \<open>client.getMessages(roomId, 100)\<close> resolved with, whose ids are event ids of the
  room's live timeline in the client, each taken once; the SDK holds no event id twice in
  a live timeline, which is the hypothesis on the client states the lists are taken from.
  Every other action leaves \<open>messages\<close> as it is.
\<close>

theorem messages_deduplicated:
  assumes inv: "noDuplicateIds state"
    and loads: "\<forall>a\<in>set actions. \<forall>rid msgs. loadedList a = Some (rid, msgs) \<longrightarrow>
                  (\<exists>cst. getMessages rid 100 cst = Resolved msgs \<and> timelineUnique rid cst)"
  shows "noDuplicateIds (run_actions actions state)
       \<and> noDuplicateIds (run_actions (map OnMessage ms) initialChatState)
       \<and> onMessageHandler m state
           = (if msgId m \<in> msgId ` set (roomMessages state (roomId m)) then state
              else state\<lparr>messages := (messages state)(roomId m \<mapsto> roomMessages state (roomId m) @ [m])\<rparr>)
       \<and> (\<forall>a. loadedList a = None \<and> (\<forall>x. a \<noteq> OnMessage x)
              \<longrightarrow> messages (apply_action a state) = messages state)
       \<and> (\<forall>a rid msgs. loadedList a = Some (rid, msgs)
              \<longrightarrow> messages (apply_action a state) = (messages state)(rid \<mapsto> msgs))
       \<and> (\<forall>rid limit cst msgs. timelineUnique rid cst \<and> getMessages rid limit cst = Resolved msgs
              \<longrightarrow> distinct (map msgId msgs))"
proof (intro conjI)
  have "\<forall>a\<in>set actions. loadsDistinct a"
  proof
    fix a
    assume a: "a \<in> set actions"
    show "loadsDistinct a"
    proof (cases "loadedList a")
      case None
      then show ?thesis by (simp add: loadsDistinct_def)
    next
      case (Some p)
      obtain rid msgs where p: "p = (rid, msgs)" by (cases p)
      from loads a Some p obtain cst
        where "getMessages rid 100 cst = Resolved msgs" "timelineUnique rid cst"
        by blast
      then have "distinct (map msgId msgs)"
        using getMessages_distinct by blast
      then show ?thesis using Some p by (simp add: loadsDistinct_def)
    qed
  qed
  with inv show "noDuplicateIds (run_actions actions state)"
    by (rule run_actions_inv)
  have "noDuplicateIds initialChatState"
    by (simp add: noDuplicateIds_def initialChatState_def)
  moreover have "\<forall>a\<in>set (map OnMessage ms). loadsDistinct a"
    by (auto simp: loadsDistinct_def)
  ultimately show "noDuplicateIds (run_actions (map OnMessage ms) initialChatState)"
    by (rule run_actions_inv)
  show "onMessageHandler m state
           = (if msgId m \<in> msgId ` set (roomMessages state (roomId m)) then state
              else state\<lparr>messages := (messages state)(roomId m \<mapsto> roomMessages state (roomId m) @ [m])\<rparr>)"
  proof -
    have eq: "list_ex (\<lambda>x. msgId x = msgId m) xs = (msgId m \<in> msgId ` set xs)" for xs
      by (induction xs) auto
    show ?thesis by (simp add: onMessageHandler_def Let_def eq)
  qed
  show "\<forall>a. loadedList a = None \<and> (\<forall>x. a \<noteq> OnMessage x)
              \<longrightarrow> messages (apply_action a state) = messages state"
    using other_actions_keep_messages by blast
  show "\<forall>a rid msgs. loadedList a = Some (rid, msgs)
              \<longrightarrow> messages (apply_action a state) = (messages state)(rid \<mapsto> msgs)"
    using loadedList_installed by blast
  show "\<forall>rid limit cst msgs. timelineUnique rid cst \<and> getMessages rid limit cst = Resolved msgs
              \<longrightarrow> distinct (map msgId msgs)"
    using getMessages_distinct by blast
qed

theorem messages_deduplicated_witness:
  "noDuplicateIds initialChatState
   \<and> timelineUnique ''!dm1'' exLoaded
   \<and> getMessages ''!dm1'' 100 exLoaded = Resolved [exMsg ''$e2'' ''hello'', exMsg ''$e4'' ''hello'']
   \<and> run_actions [OnMessage (exMsg ''$e1'' ''one''), OnMessage (exMsg ''$e2'' ''two'')] initialChatState
       = initialChatState\<lparr>messages := [''!dm1'' \<mapsto> [exMsg ''$e1'' ''one'', exMsg ''$e2'' ''two'']]\<rparr>
   \<and> run_actions [OnMessage (exMsg ''$e1'' ''one''), OnMessage (exMsg ''$e2'' ''two''),
                   OnMessage (exMsg ''$e2'' ''again''), OnMessage (exMsg ''$e3'' ''three'')] initialChatState
       = initialChatState\<lparr>messages := [''!dm1'' \<mapsto> [exMsg ''$e1'' ''one'', exMsg ''$e2'' ''two'',
                                                          exMsg ''$e3'' ''three'']]\<rparr>
   \<and> noDuplicateIds (run_actions [OnMessage (exMsg ''$e1'' ''one''), OnMessage (exMsg ''$e2'' ''two''),
                   OnMessage (exMsg ''$e2'' ''again''), OnMessage (exMsg ''$e3'' ''three''),
                   LoadMessages ''!dm1'' (getMessages ''!dm1'' 100 exLoaded),
                   OnMessage (exMsg ''$e4'' ''echo'')] initialChatState)
   \<and> messages (run_actions [OnMessage (exMsg ''$e1'' ''one''), OnMessage (exMsg ''$e2'' ''two''),
                   OnMessage (exMsg ''$e2'' ''again''), OnMessage (exMsg ''$e3'' ''three''),
                   LoadMessages ''!dm1'' (getMessages ''!dm1'' 100 exLoaded),
                   OnMessage (exMsg ''$e4'' ''echo'')] initialChatState) ''!dm1''
       = Some [exMsg ''$e2'' ''hello'', exMsg ''$e4'' ''hello'']"
proof -
  have i: "noDuplicateIds initialChatState"
    by (simp add: noDuplicateIds_def initialChatState_def)
  have u: "timelineUnique ''!dm1'' exLoaded"
    by (simp add: timelineUnique_def exLoaded_def updClient_def exConnected_def getRoom_def
          exDm_def exRoom_def exHello_def exUndecryptable_def)
  have g: "getMessages ''!dm1'' 100 exLoaded = Resolved [exMsg ''$e2'' ''hello'', exMsg ''$e4'' ''hello'']"
    by (simp add: getMessages_def exLoaded_def updClient_def exConnected_def getRoom_def
          slice_last_def List.map_filter_simps eventToMessage_def decryptCaught_def exHello_def
          exUndecryptable_def exMsg_def exHelloMessage_def getMember_def getMessageType_def
          createClient_def exSession_def exDm_def exRoom_def exMember_def)
  let ?acts = "[OnMessage (exMsg ''$e1'' ''one''), OnMessage (exMsg ''$e2'' ''two''),
                   OnMessage (exMsg ''$e2'' ''again''), OnMessage (exMsg ''$e3'' ''three''),
                   LoadMessages ''!dm1'' (getMessages ''!dm1'' 100 exLoaded),
                   OnMessage (exMsg ''$e4'' ''echo'')]"
  have l: "\<forall>a\<in>set ?acts. \<forall>rid msgs. loadedList a = Some (rid, msgs) \<longrightarrow>
                  (\<exists>cst. getMessages rid 100 cst = Resolved msgs \<and> timelineUnique rid cst)"
    using u g by auto
  have r1: "run_actions [OnMessage (exMsg ''$e1'' ''one''), OnMessage (exMsg ''$e2'' ''two'')] initialChatState
       = initialChatState\<lparr>messages := [''!dm1'' \<mapsto> [exMsg ''$e1'' ''one'', exMsg ''$e2'' ''two'']]\<rparr>"
    by (simp add: run_actions_def onMessageHandler_def roomMessages_def initialChatState_def exMsg_def
          exHelloMessage_def)
  have r2: "run_actions [OnMessage (exMsg ''$e1'' ''one''), OnMessage (exMsg ''$e2'' ''two''),
                   OnMessage (exMsg ''$e2'' ''again''), OnMessage (exMsg ''$e3'' ''three'')] initialChatState
       = initialChatState\<lparr>messages := [''!dm1'' \<mapsto> [exMsg ''$e1'' ''one'', exMsg ''$e2'' ''two'',
                                                          exMsg ''$e3'' ''three'']]\<rparr>"
    by (simp add: run_actions_def onMessageHandler_def roomMessages_def initialChatState_def exMsg_def
          exHelloMessage_def)
  have r3: "messages (run_actions ?acts initialChatState) ''!dm1''
       = Some [exMsg ''$e2'' ''hello'', exMsg ''$e4'' ''hello'']"
    unfolding g
    by (simp add: run_actions_def onMessageHandler_def roomMessages_def initialChatState_def exMsg_def
          exHelloMessage_def loadMessages_def)
  from messages_deduplicated [OF i l]
  have "noDuplicateIds (run_actions ?acts initialChatState)" by blast
  then show ?thesis using i u g r1 r2 r3 by simp
qed

subsection \<open>The history sent to the responder, and the apology\<close>

lemma historySent_length: "length (historySent event room st) \<le> 20"
  by (simp add: historySent_def Let_def)

lemma handleMessage_skips:
  "\<not> handled cfg event \<Longrightarrow> handleMessage cfg event room completion replySent apologySent st = (Resolved (), st)"
  by (auto simp: handled_def handleMessage_def)

lemma requestHistories_append [simp]:
  "requestHistories (xs @ ys) = requestHistories xs @ requestHistories ys"
  by (simp add: requestHistories_def)

lemma handleMessage_calls:
  assumes "handled cfg event"
  shows "botCalls (snd (handleMessage cfg event room completion replySent apologySent st))
     = botCalls st
       @ [SendTyping (sdk_roomId room) True 30000,
          MessagesCreate (model cfg) 4096 (systemPrompt (getSender event)) (historySent event room st)]
       @ (case completion of
            Inl e \<Rightarrow> [SendTyping (sdk_roomId room) False 0, BotSendTextMessage (sdk_roomId room) apology]
          | Inr blocks \<Rightarrow>
              [SendTyping (sdk_roomId room) False 0,
               BotSendTextMessage (sdk_roomId room) (join [CHR 0x0A] (blockTexts blocks))]
              @ (case replySent of
                   Inl e \<Rightarrow> [SendTyping (sdk_roomId room) False 0,
                             BotSendTextMessage (sdk_roomId room) apology]
                 | Inr _ \<Rightarrow> []))"
  using assms
  by (auto simp: handled_def handleMessage_def Let_def sendApology_def botCall_def historySent_def
        slice_last_def split: sum.splits option.splits)

lemma handleMessage_requests:
  "handled cfg event \<Longrightarrow>
   requestHistories (botCalls (snd (handleMessage cfg event room completion replySent apologySent st)))
     = requestHistories (botCalls st) @ [historySent event room st]"
  by (cases completion; cases replySent) (simp_all add: handleMessage_calls requestHistories_def)

lemma handleInput_bounded:
  assumes "\<forall>h\<in>set (requestHistories (botCalls st)). length h \<le> 20"
  shows "\<forall>h\<in>set (requestHistories (botCalls (handleInput cfg i st))). length h \<le> 20"
proof (cases "handled cfg (in_event i)")
  case True
  then show ?thesis
    using assms by (simp add: handleInput_def handleMessage_requests historySent_length)
next
  case False
  then show ?thesis
    using assms by (simp add: handleInput_def handleMessage_skips)
qed

lemma handleAll_bounded:
  assumes "\<forall>h\<in>set (requestHistories (botCalls st)). length h \<le> 20"
  shows "\<forall>h\<in>set (requestHistories (botCalls (handleAll cfg inputs st))). length h \<le> 20"
  using assms unfolding handleAll_def
proof (induction inputs arbitrary: st)
  case Nil
  then show ?case by simp
next
  case (Cons i inputs)
  have "\<forall>h\<in>set (requestHistories (botCalls (handleInput cfg i st))). length h \<le> 20"
    using Cons.prems by (rule handleInput_bounded)
  then show ?case using Cons.IH by simp
qed

lemma handleMessage_failure_outcome:
  assumes "handled cfg event"
  shows "fst (handleMessage cfg event room (Inl e) replySent apologySent st)
           = (case apologySent of Inl e' \<Rightarrow> Rejected e' | Inr _ \<Rightarrow> Resolved ())"
  using assms
  by (auto simp: handled_def handleMessage_def Let_def sendApology_def split: sum.splits)


text \<open>
  C8. Whatever events arrive and whatever the services answer, every history handed to
  the responder (the \<open>messages\<close> of a completion request) has at most 20 entries: for
  an event that is handled it is the last 20 entries of the room's stored history
  followed by the new user message. Whenever the responder call fails, the bot stops the
  typing notice and sends the room the fixed text \<^emph>\<open>I'm having trouble processing that
  right now. Please try again.\<close> (written out in the statement), and nothing else; the
  handler then settles as that send does, so the responder's error is never what it fails
  with.
\<close>

theorem bot_history_and_apology:
  assumes bounded: "\<forall>h\<in>set (requestHistories (botCalls st)). length h \<le> 20"
  shows "(\<forall>h\<in>set (requestHistories (botCalls (handleAll cfg inputs st))). length h \<le> 20)
       \<and> (handled cfg event \<longrightarrow>
             requestHistories
               (botCalls (snd (handleMessage cfg event room completion replySent apologySent st)))
               = requestHistories (botCalls st) @ [historySent event room st]
           \<and> length (historySent event room st) \<le> 20)
       \<and> (handled cfg event \<longrightarrow>
             botCalls (snd (handleMessage cfg event room (Inl e) replySent apologySent st))
               = botCalls st
                 @ [SendTyping (sdk_roomId room) True 30000,
                    MessagesCreate (model cfg) 4096 (systemPrompt (getSender event))
                      (historySent event room st),
                    SendTyping (sdk_roomId room) False 0,
                    BotSendTextMessage (sdk_roomId room)
                      ''I'm having trouble processing that right now. Please try again.'']
           \<and> fst (handleMessage cfg event room (Inl e) replySent apologySent st)
               = (case apologySent of Inl e' \<Rightarrow> Rejected e' | Inr _ \<Rightarrow> Resolved ()))"
proof (intro conjI impI)
  show "\<forall>h\<in>set (requestHistories (botCalls (handleAll cfg inputs st))). length h \<le> 20"
    using bounded by (rule handleAll_bounded)
next
  assume h: "handled cfg event"
  show "requestHistories
               (botCalls (snd (handleMessage cfg event room completion replySent apologySent st)))
               = requestHistories (botCalls st) @ [historySent event room st]"
    using h by (rule handleMessage_requests)
  show "length (historySent event room st) \<le> 20"
    by (rule historySent_length)
next
  assume h: "handled cfg event"
  show "botCalls (snd (handleMessage cfg event room (Inl e) replySent apologySent st))
               = botCalls st
                 @ [SendTyping (sdk_roomId room) True 30000,
                    MessagesCreate (model cfg) 4096 (systemPrompt (getSender event))
                      (historySent event room st),
                    SendTyping (sdk_roomId room) False 0,
                    BotSendTextMessage (sdk_roomId room)
                      ''I'm having trouble processing that right now. Please try again.'']"
    by (simp add: handleMessage_calls [OF h] apology_def)
  show "fst (handleMessage cfg event room (Inl e) replySent apologySent st)
               = (case apologySent of Inl e' \<Rightarrow> Rejected e' | Inr _ \<Rightarrow> Resolved ())"
    using h by (rule handleMessage_failure_outcome)
qed

theorem bot_history_and_apology_witness:
  "requestHistories (botCalls exBotState) = []
   \<and> handled exBotConfig exUserEvent
   \<and> length (historySent exUserEvent exDm exBotState) = 20
   \<and> botCalls (snd (handleMessage exBotConfig exUserEvent exDm (Inl (Error ''overloaded''))
                      (Inr ()) (Inr ()) exBotState))
       = [SendTyping ''!dm1'' True 30000,
          MessagesCreate ''claude-sonnet-4-20250514'' 4096 (systemPrompt ''@alice:clawchat.io'')
            (historySent exUserEvent exDm exBotState),
          SendTyping ''!dm1'' False 0,
          BotSendTextMessage ''!dm1''
            ''I'm having trouble processing that right now. Please try again.'']
   \<and> fst (handleMessage exBotConfig exUserEvent exDm (Inl (Error ''overloaded''))
            (Inr ()) (Inr ()) exBotState) = Resolved ()"
proof -
  have b: "\<forall>h\<in>set (requestHistories (botCalls exBotState)). length h \<le> 20"
    by (simp add: exBotState_def requestHistories_def)
  have e: "requestHistories (botCalls exBotState) = []"
    by (simp add: exBotState_def requestHistories_def)
  have h: "handled exBotConfig exUserEvent"
    by (simp add: handled_def exBotConfig_def exUserEvent_def exHello_def)
  have l: "length (historySent exUserEvent exDm exBotState) = 20"
    by (simp add: historySent_def exBotState_def exDm_def exRoom_def)
  have v: "sdk_roomId exDm = ''!dm1''" "model exBotConfig = ''claude-sonnet-4-20250514''"
      "getSender exUserEvent = ''@alice:clawchat.io''" "botCalls exBotState = []"
    by (simp_all add: exDm_def exRoom_def exBotConfig_def exUserEvent_def exBotState_def)
  note t = bot_history_and_apology [OF b, of exBotConfig _ exUserEvent exDm _ "Inr ()" "Inr ()"
      "Error ''overloaded''"]
  from t h have c: "botCalls (snd (handleMessage exBotConfig exUserEvent exDm (Inl (Error ''overloaded''))
                      (Inr ()) (Inr ()) exBotState))
       = botCalls exBotState
         @ [SendTyping (sdk_roomId exDm) True 30000,
            MessagesCreate (model exBotConfig) 4096 (systemPrompt (getSender exUserEvent))
              (historySent exUserEvent exDm exBotState),
            SendTyping (sdk_roomId exDm) False 0,
            BotSendTextMessage (sdk_roomId exDm)
              ''I'm having trouble processing that right now. Please try again.'']"
    by blast
  from t h have f: "fst (handleMessage exBotConfig exUserEvent exDm (Inl (Error ''overloaded''))
            (Inr ()) (Inr ()) exBotState)
      = (case (Inr () :: js_error + unit) of Inl e' \<Rightarrow> Rejected e' | Inr _ \<Rightarrow> Resolved ())"
    by blast
  show ?thesis using e h l c f by (simp add: v)
qed

subsection \<open>UTF-8 and base64 round trips\<close>

lemma base64Value_Char: "n < 64 \<Longrightarrow> base64Value (base64Char n) = Some n"
  unfolding base64Value_def base64Char_def by (simp split: if_splits) arith

lemma base64Char_not_pad: "n < 64 \<Longrightarrow> base64Char n \<noteq> 61"
  unfolding base64Char_def by (simp split: if_splits) arith

lemma base64Char_small: "base64Char n < 128"
  unfolding base64Char_def by (simp split: if_splits) arith

lemma sextetsOf_Char: "n < 64 \<Longrightarrow> sextetsOf (base64Char n # cs) = n # sextetsOf cs"
  by (simp add: sextetsOf_def base64Char_not_pad base64Value_Char List.map_filter_simps)

lemma sextetsOf_pad: "sextetsOf (61 # cs) = []"
  by (simp add: sextetsOf_def List.map_filter_simps)

lemma sextetsOf_Nil: "sextetsOf [] = []"
  by (simp add: sextetsOf_def List.map_filter_simps)

lemma byte_parts:
  fixes a b c :: nat
  assumes "a < 256" "b < 256" "c < 256"
  shows "a div 4 < 64" "a mod 4 * 16 < 64" "a mod 4 * 16 + b div 16 < 64" "b mod 16 * 4 < 64"
    "b mod 16 * 4 + c div 64 < 64" "c mod 64 < 64"
  using assms by simp_all

lemma base64_roundtrip:
  "\<forall>b\<in>set bs. b < 256 \<Longrightarrow> base64Decode (base64Encode bs) = bs"
  unfolding base64Decode_def sextetsOf_def [symmetric]
proof (induction bs rule: base64Encode.induct)
  case 1
  then show ?case by (simp add: sextetsOf_Nil)
next
  case (2 a)
  then have a: "a < 256" by simp
  show ?case
    using a by (simp add: sextetsOf_Char sextetsOf_pad byte_parts [OF a a a])
next
  case (3 a b)
  then have a: "a < 256" and b: "b < 256" by simp_all
  show ?case
    using a b by (simp add: sextetsOf_Char sextetsOf_pad byte_parts [OF a b b])
next
  case (4 a b c rest)
  then have a: "a < 256" and b: "b < 256" and c: "c < 256" 
    and r: "fromSextets (sextetsOf (base64Encode rest)) = rest" by simp_all
  show ?case
    using a b c by (simp add: sextetsOf_Char byte_parts [OF a b c] r)
qed

lemma base64Encode_small: "\<forall>c\<in>set (base64Encode bs). c < 128"
  by (induction bs rule: base64Encode.induct) (simp_all add: base64Char_small)

lemma utf8Slice_1: "b < 0x80 \<Longrightarrow> utf8Slice (b # bs) = b # utf8Slice bs"
  by (subst utf8Slice.simps) (simp del: utf8Slice.simps)

lemma utf8Slice_2:
  assumes "0xBF < b" "b \<le> 0xDF" "continuation c" "0x7F < b mod 32 * 64 + c mod 64"
  shows "utf8Slice (b # c # rest) = (b mod 32 * 64 + c mod 64) # utf8Slice rest"
  using assms by (subst utf8Slice.simps) (simp del: utf8Slice.simps add: Let_def)

lemma utf8Slice_3:
  assumes "0xDF < b" "b \<le> 0xEF" "continuation c" "continuation d"
    "0x7FF < b mod 16 * 4096 + c mod 64 * 64 + d mod 64"
    "b mod 16 * 4096 + c mod 64 * 64 + d mod 64 < 0xD800
     \<or> 0xDFFF < b mod 16 * 4096 + c mod 64 * 64 + d mod 64"
  shows "utf8Slice (b # c # d # rest) = (b mod 16 * 4096 + c mod 64 * 64 + d mod 64) # utf8Slice rest"
  using assms by (subst utf8Slice.simps) (simp del: utf8Slice.simps add: Let_def)

lemma utf8Slice_4:
  assumes "0xEF < b" "continuation c" "continuation d" "continuation e"
    "0xFFFF < b mod 16 * 262144 + c mod 64 * 4096 + d mod 64 * 64 + e mod 64"
    "b mod 16 * 262144 + c mod 64 * 4096 + d mod 64 * 64 + e mod 64 < 0x110000"
  shows "utf8Slice (b # c # d # e # rest)
           = codeUnitsOf (b mod 16 * 262144 + c mod 64 * 4096 + d mod 64 * 64 + e mod 64)
             @ utf8Slice rest"
  using assms by (subst utf8Slice.simps) (simp del: utf8Slice.simps add: Let_def)

lemma q1: "(cp::nat) div 64 div 64 = cp div 4096" by (simp add: div_mult2_eq [symmetric])

lemma q2: "(cp::nat) div 4096 div 64 = cp div 262144" by (simp add: div_mult2_eq [symmetric])

lemma lin3: "(a::nat) = k * 64 + x \<Longrightarrow> c = a * 64 + y \<Longrightarrow> k * 4096 + x * 64 + y = c"
  by arith

lemma lin4: "(a::nat) = k * 64 + x \<Longrightarrow> c = a * 4096 + z \<Longrightarrow> k * 262144 + x * 4096 + z = c"
  by arith

lemma r3: "(cp::nat) div 4096 * 4096 + cp div 64 mod 64 * 64 + cp mod 64 = cp"
proof -
  have a: "cp div 64 = cp div 4096 * 64 + cp div 64 mod 64"
    using div_mult_mod_eq [of "cp div 64" 64] by (simp only: q1)
  have b: "cp = cp div 64 * 64 + cp mod 64" by simp
  show ?thesis using a b by (rule lin3)
qed

lemma r4: "(cp::nat) div 262144 * 262144 + cp div 4096 mod 64 * 4096 + (cp div 64 mod 64 * 64 + cp mod 64) = cp"
proof -
  have a: "cp div 4096 = cp div 262144 * 64 + cp div 4096 mod 64"
    using div_mult_mod_eq [of "cp div 4096" 64] by (simp only: q2)
  have b: "cp = cp div 4096 * 4096 + (cp div 64 mod 64 * 64 + cp mod 64)"
    using r3 [of cp] by (simp only: add.assoc)
  show ?thesis using a b by (rule lin4)
qed

declare utf8Slice.simps [simp del]

lemma lead2: "(k::nat) < 32 \<Longrightarrow> (k + 192) mod 32 = k"
  using mod_mult_self1 [of k 6 32] by simp

lemma lead3: "(k::nat) < 16 \<Longrightarrow> (k + 224) mod 16 = k"
  using mod_mult_self1 [of k 14 16] by simp

lemma lead4: "(k::nat) < 16 \<Longrightarrow> (k + 240) mod 16 = k"
  using mod_mult_self1 [of k 15 16] by simp

lemma top2: "(cp::nat) < 2048 \<Longrightarrow> cp div 64 < 32" by arith

lemma top3: "(cp::nat) < 65536 \<Longrightarrow> cp div 4096 < 16" by arith

lemma top4: "(cp::nat) < 1114112 \<Longrightarrow> cp div 262144 < 16" by arith

lemma cont_byte: "continuation (x mod 64 + 128)"
  unfolding continuation_def by arith

lemma low6: "((x::nat) mod 64 + 128) mod 64 = x mod 64"
  using mod_mult_self1 [of "x mod 64" 2 64] by simp

lemma decode1:
  assumes "cp < 0x80"
  shows "utf8Slice (encodeCodePoint cp @ rest) = codeUnitsOf cp @ utf8Slice rest"
proof -
  have e: "encodeCodePoint cp = [cp]" using assms by (simp add: encodeCodePoint_def)
  have u: "codeUnitsOf cp = [cp]" using assms by (simp add: codeUnitsOf_def)
  show ?thesis unfolding e u using utf8Slice_1 [OF assms, of rest] by simp
qed

lemma decode2:
  assumes lo: "0x80 \<le> cp" and hi: "cp < 0x800"
  shows "utf8Slice (encodeCodePoint cp @ rest) = codeUnitsOf cp @ utf8Slice rest"
proof -
  let ?b = "cp div 64 + 192" and ?c = "cp mod 64 + 128"
  have k: "cp div 64 < 32" using hi by (simp add: top2)
  have b: "0xBF < ?b" "?b \<le> 0xDF" using k by simp_all
  have m: "?b mod 32 = cp div 64" using k by (rule lead2)
  have v: "?b mod 32 * 64 + ?c mod 64 = cp"
    unfolding m low6 by simp
  have big: "0x7F < ?b mod 32 * 64 + ?c mod 64"
    unfolding v using lo by simp
  have "utf8Slice (?b # ?c # rest) = (?b mod 32 * 64 + ?c mod 64) # utf8Slice rest"
    using b cont_byte big by (rule utf8Slice_2)
  then have "utf8Slice (?b # ?c # rest) = cp # utf8Slice rest"
    unfolding v .
  then show ?thesis
    using lo hi by (simp add: encodeCodePoint_def codeUnitsOf_def)
qed

lemma decode3:
  assumes lo: "0x800 \<le> cp" and hi: "cp < 0x10000" and ns: "cp < 0xD800 \<or> 0xDFFF < cp"
  shows "utf8Slice (encodeCodePoint cp @ rest) = codeUnitsOf cp @ utf8Slice rest"
proof -
  let ?b = "cp div 4096 + 224" and ?c = "cp div 64 mod 64 + 128" and ?d = "cp mod 64 + 128"
  have k: "cp div 4096 < 16" using hi by (simp add: top3)
  have b: "0xDF < ?b" "?b \<le> 0xEF" using k by simp_all
  have m: "?b mod 16 = cp div 4096" using k by (rule lead3)
  have v: "?b mod 16 * 4096 + ?c mod 64 * 64 + ?d mod 64 = cp"
    unfolding m low6 by (rule r3)
  have big: "0x7FF < ?b mod 16 * 4096 + ?c mod 64 * 64 + ?d mod 64"
    unfolding v using lo by simp
  have nosur: "?b mod 16 * 4096 + ?c mod 64 * 64 + ?d mod 64 < 0xD800
     \<or> 0xDFFF < ?b mod 16 * 4096 + ?c mod 64 * 64 + ?d mod 64"
    unfolding v using ns .
  have "utf8Slice (?b # ?c # ?d # rest)
          = (?b mod 16 * 4096 + ?c mod 64 * 64 + ?d mod 64) # utf8Slice rest"
    using b cont_byte cont_byte big nosur by (rule utf8Slice_3)
  then have "utf8Slice (?b # ?c # ?d # rest) = cp # utf8Slice rest"
    unfolding v .
  then show ?thesis
    using lo hi by (simp add: encodeCodePoint_def codeUnitsOf_def)
qed

lemma decode4:
  assumes lo: "0x10000 \<le> cp" and hi: "cp < 0x110000"
  shows "utf8Slice (encodeCodePoint cp @ rest) = codeUnitsOf cp @ utf8Slice rest"
proof -
  let ?b = "cp div 262144 + 240" and ?c = "cp div 4096 mod 64 + 128"
    and ?d = "cp div 64 mod 64 + 128" and ?e = "cp mod 64 + 128"
  have k: "cp div 262144 < 16" using hi by (simp add: top4)
  have b: "0xEF < ?b" by simp
  have m: "?b mod 16 = cp div 262144" using k by (rule lead4)
  have v: "?b mod 16 * 262144 + ?c mod 64 * 4096 + ?d mod 64 * 64 + ?e mod 64 = cp"
    unfolding m low6 using r4 [of cp] by (simp only: add.assoc)
  have big: "0xFFFF < ?b mod 16 * 262144 + ?c mod 64 * 4096 + ?d mod 64 * 64 + ?e mod 64"
    unfolding v using lo by simp
  have small: "?b mod 16 * 262144 + ?c mod 64 * 4096 + ?d mod 64 * 64 + ?e mod 64 < 0x110000"
    unfolding v using hi by simp
  have "utf8Slice (?b # ?c # ?d # ?e # rest)
          = codeUnitsOf (?b mod 16 * 262144 + ?c mod 64 * 4096 + ?d mod 64 * 64 + ?e mod 64)
            @ utf8Slice rest"
    using b cont_byte cont_byte cont_byte big small by (rule utf8Slice_4)
  then have "utf8Slice (?b # ?c # ?d # ?e # rest) = codeUnitsOf cp @ utf8Slice rest"
    unfolding v .
  then show ?thesis
    using lo hi by (simp add: encodeCodePoint_def)
qed

lemma decode_encode:
  assumes "cp < 0x110000" and "cp < 0xD800 \<or> 0xDFFF < cp"
  shows "utf8Slice (encodeCodePoint cp @ rest) = codeUnitsOf cp @ utf8Slice rest"
proof -
  consider "cp < 0x80" | "0x80 \<le> cp" "cp < 0x800" | "0x800 \<le> cp" "cp < 0x10000" | "0x10000 \<le> cp"
    by linarith
  then show ?thesis
  proof cases
    case 1 then show ?thesis by (rule decode1)
  next
    case 2 then show ?thesis by (rule decode2)
  next
    case 3 then show ?thesis using assms(2) by (rule decode3)
  next
    case 4 then show ?thesis using assms(1) by (rule decode4)
  qed
qed

lemma replacement_is_FFFD: "replacement = encodeCodePoint 0xFFFD"
  by (simp add: replacement_def encodeCodePoint_def)

lemma decode_replacement: "utf8Slice (replacement @ rest) = 0xFFFD # utf8Slice rest"
  unfolding replacement_is_FFFD
  by (subst decode_encode) (simp_all add: codeUnitsOf_def)

lemma decode_bmp:
  assumes "u < 0x10000" "\<not> isLead u" "\<not> isTrail u"
  shows "utf8Slice (encodeCodePoint u @ rest) = u # utf8Slice rest"
proof -
  have ns: "u < 0xD800 \<or> 0xDFFF < u"
    using assms(2,3) unfolding isLead_def isTrail_def by linarith
  have "u < 0x110000" using assms(1) by simp
  then have "utf8Slice (encodeCodePoint u @ rest) = codeUnitsOf u @ utf8Slice rest"
    using ns by (rule decode_encode)
  then show ?thesis using assms(1) by (simp add: codeUnitsOf_def)
qed

lemma decode_pair:
  assumes "isLead u" "isTrail v"
  shows "utf8Slice (encodeCodePoint ((u - 0xD800) * 1024 + (v - 0xDC00) + 0x10000) @ rest)
           = u # v # utf8Slice rest"
proof -
  define a where "a = u - 0xD800"
  define b where "b = v - 0xDC00"
  have a: "a < 1024" "u = a + 0xD800"
    using assms(1) unfolding a_def isLead_def by linarith+
  have b: "b < 1024" "v = b + 0xDC00"
    using assms(2) unfolding b_def isTrail_def by linarith+
  let ?cp = "a * 1024 + b + 0x10000"
  have lo: "0xFFFF < ?cp" by simp
  have "a * 1024 \<le> 1023 * 1024" using a(1) by simp
  then have hi: "?cp < 0x110000" using b(1) by simp
  have ns: "?cp < 0xD800 \<or> 0xDFFF < ?cp" by simp
  have cu: "codeUnitsOf ?cp = [u, v]"
    using lo a(1) b(1) by (simp add: codeUnitsOf_def a(2) b(2))
  have "utf8Slice (encodeCodePoint ?cp @ rest) = codeUnitsOf ?cp @ utf8Slice rest"
    using hi ns by (rule decode_encode)
  then have "utf8Slice (encodeCodePoint ?cp @ rest) = u # v # utf8Slice rest"
    unfolding cu by simp
  then show ?thesis unfolding a_def b_def .
qed

lemma utf8Loop_pending:
  assumes "isLead l" and "us \<noteq> []"
  shows "utf8Loop (Some l) us = utf8Loop None (l # us)"
proof -
  have "0xD7FF < l \<and> l < 0xE000" "\<not> 0xDBFF < l"
    using assms(1) unfolding isLead_def by linarith+
  then show ?thesis
    using assms(2) by (subst utf8Loop.simps(2)) (simp del: utf8Loop.simps)
qed

lemma utf8Loop_None: "utf8Loop None us = utf8ToBytes us"
  by (simp add: utf8ToBytes_def)

lemma utf8ToBytes_Nil: "utf8ToBytes [] = []"
  by (simp add: utf8ToBytes_def)

lemma utf8ToBytes_single:
  "utf8ToBytes [u] = (if isLead u \<or> isTrail u then replacement else encodeCodePoint u)"
  by (auto simp: utf8ToBytes_def isLead_def isTrail_def)

lemma utf8ToBytes_Cons2:
  "utf8ToBytes (u # v # vs) =
     (if isLead u then
        (if isTrail v
         then encodeCodePoint ((u - 0xD800) * 1024 + (v - 0xDC00) + 0x10000) @ utf8ToBytes vs
         else if isLead v \<and> vs = [] then replacement
         else replacement @ utf8ToBytes (v # vs))
      else if isTrail u then replacement @ utf8ToBytes (v # vs)
      else encodeCodePoint u @ utf8ToBytes (v # vs))"
proof (cases "isLead u")
  case True
  then have u: "0xD7FF < u \<and> u < 0xE000" "\<not> 0xDBFF < u"
    unfolding isLead_def by linarith+
  have start: "utf8ToBytes (u # v # vs) = utf8Loop (Some u) (v # vs)"
    unfolding utf8ToBytes_def using u by (subst utf8Loop.simps(2)) (simp del: utf8Loop.simps)
  show ?thesis
  proof (cases "isTrail v")
    case True
    then have v: "0xD7FF < v \<and> v < 0xE000" "\<not> v < 0xDC00"
      unfolding isTrail_def by linarith+
    have "utf8Loop (Some u) (v # vs)
            = encodeCodePoint ((u - 0xD800) * 1024 + (v - 0xDC00) + 0x10000) @ utf8ToBytes vs"
      using v by (subst utf8Loop.simps(2)) (simp del: utf8Loop.simps add: utf8Loop_None)
    then show ?thesis
      using \<open>isLead u\<close> True by (simp add: start del: utf8Loop.simps)
  next
    case False
    note notrail = this
    show ?thesis
    proof (cases "isLead v")
      case True
      then have v: "0xD7FF < v \<and> v < 0xE000" "v < 0xDC00"
        unfolding isLead_def by linarith+
      have step: "utf8Loop (Some u) (v # vs) = replacement @ utf8Loop (Some v) vs"
        using v by (subst utf8Loop.simps(2)) (simp del: utf8Loop.simps)
      show ?thesis
      proof (cases "vs = []")
        case True
        have "utf8Loop (Some v) vs = []" using True by simp
        then have "utf8ToBytes (u # v # vs) = replacement"
          by (simp add: start step del: utf8Loop.simps)
        then show ?thesis
          using \<open>isLead u\<close> notrail \<open>isLead v\<close> True by simp
      next
        case False
        have "utf8Loop (Some v) vs = utf8ToBytes (v # vs)"
          using utf8Loop_pending [OF \<open>isLead v\<close> False] by (simp only: utf8Loop_None)
        then show ?thesis
          using \<open>isLead u\<close> notrail False by (simp add: start step del: utf8Loop.simps)
      qed
    next
      case False
      then have "\<not> (0xD7FF < v \<and> v < 0xE000)"
        using notrail unfolding isLead_def isTrail_def by linarith
      then have v: "(0xD7FF < v \<and> v < 0xE000) = False" by simp
      have step: "utf8Loop (Some u) (v # vs) = replacement @ encodeCodePoint v @ utf8ToBytes vs"
        by (subst utf8Loop.simps(2)) (simp del: utf8Loop.simps add: utf8Loop_None v)
      have "utf8Loop None (v # vs) = encodeCodePoint v @ utf8ToBytes vs"
        by (subst utf8Loop.simps(2)) (simp del: utf8Loop.simps add: utf8Loop_None v)
      then have "utf8ToBytes (v # vs) = encodeCodePoint v @ utf8ToBytes vs"
        by (simp only: utf8Loop_None)
      then show ?thesis
        using \<open>isLead u\<close> notrail False by (simp add: start step del: utf8Loop.simps)
    qed
  qed
next
  case False
  note nolead = this
  show ?thesis
  proof (cases "isTrail u")
    case True
    then have u: "0xD7FF < u \<and> u < 0xE000" "0xDBFF < u"
      unfolding isTrail_def by linarith+
    have "utf8Loop None (u # v # vs) = replacement @ utf8ToBytes (v # vs)"
      using u by (subst utf8Loop.simps(2)) (simp del: utf8Loop.simps add: utf8Loop_None)
    then have "utf8ToBytes (u # v # vs) = replacement @ utf8ToBytes (v # vs)"
      by (simp only: utf8Loop_None)
    then show ?thesis
      using nolead True by simp
  next
    case False
    then have "\<not> (0xD7FF < u \<and> u < 0xE000)"
      using nolead unfolding isLead_def isTrail_def by linarith
    then have u: "(0xD7FF < u \<and> u < 0xE000) = False" by simp
    have "utf8Loop None (u # v # vs) = encodeCodePoint u @ utf8ToBytes (v # vs)"
      by (subst utf8Loop.simps(2)) (simp del: utf8Loop.simps add: utf8Loop_None u)
    then have "utf8ToBytes (u # v # vs) = encodeCodePoint u @ utf8ToBytes (v # vs)"
      by (simp only: utf8Loop_None)
    then show ?thesis
      using nolead False by simp
  qed
qed

lemma utf8_roundtrip:
  "\<forall>u\<in>set us. u < 0x10000 \<Longrightarrow> utf8Slice (utf8ToBytes us) = toWellFormed us"
proof (induction us rule: toWellFormed.induct)
  case 1
  show ?case by (simp add: utf8ToBytes_Nil utf8Slice.simps(1))
next
  case (2 u)
  then have u: "u < 0x10000" by simp
  show ?case
  proof (cases "isLead u \<or> isTrail u")
    case True
    then show ?thesis
      using decode_replacement [of "[]"] by (simp add: utf8ToBytes_single utf8Slice.simps(1))
  next
    case False
    then show ?thesis
      using decode_bmp [of u "[]"] u by (simp add: utf8ToBytes_single utf8Slice.simps(1))
  qed
next
  case (3 u v vs)
  then have u: "u < 0x10000" and v: "v < 0x10000" and vs: "\<forall>x\<in>set vs. x < 0x10000"
    by simp_all
  have all: "\<forall>x\<in>set (v # vs). x < 0x10000" using v vs by simp
  show ?case
  proof (cases "isLead u")
    case True
    note lead = this
    show ?thesis
    proof (cases "isTrail v")
      case True
      have "utf8Slice (utf8ToBytes vs) = toWellFormed vs"
        using "3.IH"(1) [OF lead True vs] .
      then show ?thesis
        using lead True by (simp add: utf8ToBytes_Cons2 decode_pair)
    next
      case False
      note notrail = this
      show ?thesis
      proof (cases "isLead v \<and> vs = []")
        case True
        then show ?thesis
          using lead notrail decode_replacement [of "[]"]
          by (simp add: utf8ToBytes_Cons2 utf8Slice.simps(1))
      next
        case False
        then have c: "(isLead v \<and> vs = []) = False" by simp
        have "utf8Slice (utf8ToBytes (v # vs)) = toWellFormed (v # vs)"
          using "3.IH"(2) [OF lead notrail False all] .
        then show ?thesis
          using lead notrail by (simp add: utf8ToBytes_Cons2 decode_replacement c)
      qed
    qed
  next
    case False
    note nolead = this
    show ?thesis
    proof (cases "isTrail u")
      case True
      have "utf8Slice (utf8ToBytes (v # vs)) = toWellFormed (v # vs)"
        using "3.IH"(3) [OF nolead True all] .
      then show ?thesis
        using nolead True by (simp add: utf8ToBytes_Cons2 decode_replacement)
    next
      case False
      have "utf8Slice (utf8ToBytes (v # vs)) = toWellFormed (v # vs)"
        using "3.IH"(4) [OF nolead False all] .
      then show ?thesis
        using nolead False u by (simp add: utf8ToBytes_Cons2 decode_bmp)
    qed
  qed
qed

lemma wellFormed_fixed: "wellFormed us \<Longrightarrow> toWellFormed us = us"
  by (induction us rule: wellFormed.induct) (auto split: if_splits)

lemma lead_not_FFFD: "isLead u \<Longrightarrow> u \<noteq> 0xFFFD"
  by (auto simp: isLead_def)

lemma trail_not_FFFD: "isTrail u \<Longrightarrow> u \<noteq> 0xFFFD"
  by (auto simp: isTrail_def)

lemma fixed_wellFormed: "toWellFormed us = us \<Longrightarrow> wellFormed us"
proof (induction us rule: toWellFormed.induct)
  case 1
  show ?case by simp
next
  case (2 u)
  then show ?case
    using lead_not_FFFD [of u] trail_not_FFFD [of u] by (auto split: if_splits)
next
  case (3 u v vs)
  show ?case
  proof (cases "isLead u")
    case True
    note lead = this
    show ?thesis
    proof (cases "isTrail v")
      case True
      have "toWellFormed vs = vs" using "3.prems" lead True by simp
      then have "wellFormed vs" using "3.IH"(1) [OF lead True] by simp
      then show ?thesis using lead True by simp
    next
      case False
      then have "u = 0xFFFD"
        using "3.prems" lead by (simp split: if_splits)
      then show ?thesis using lead_not_FFFD [OF lead] by simp
    qed
  next
    case False
    note nolead = this
    show ?thesis
    proof (cases "isTrail u")
      case True
      then have "u = 0xFFFD" using "3.prems" nolead by simp
      then show ?thesis using trail_not_FFFD [OF True] by simp
    next
      case False
      have "toWellFormed (v # vs) = v # vs" using "3.prems" nolead False by simp
      then have "wellFormed (v # vs)" using "3.IH"(4) [OF nolead False] by simp
      then show ?thesis using nolead False by simp
    qed
  qed
qed

lemma toWellFormed_units: "\<forall>u\<in>set us. u < 0x10000 \<Longrightarrow> \<forall>u\<in>set (toWellFormed us). u < 0x10000"
  by (induction us rule: toWellFormed.induct) auto

lemma encodeCodePoint_bytes:
  assumes "cp < 0x110000"
  shows "\<forall>b\<in>set (encodeCodePoint cp). b < 256"
proof -
  have m: "\<And>x::nat. x mod 64 + 128 < 256"
  proof -
    fix x :: nat
    have "x mod 64 < 64" by simp
    then show "x mod 64 + 128 < 256" by linarith
  qed
  consider "cp < 0x80" | "0x80 \<le> cp" "cp < 0x800" | "0x800 \<le> cp" "cp < 0x10000" | "0x10000 \<le> cp"
    by linarith
  then show ?thesis
  proof cases
    case 1
    then show ?thesis by (simp add: encodeCodePoint_def)
  next
    case 2
    have "cp div 64 < 32" using 2(2) by (simp add: top2)
    then have "cp div 64 + 192 < 256" by linarith
    then show ?thesis using 2 m by (simp add: encodeCodePoint_def)
  next
    case 3
    have "cp div 4096 < 16" using 3(2) by (simp add: top3)
    then have "cp div 4096 + 224 < 256" by linarith
    then show ?thesis using 3 m by (simp add: encodeCodePoint_def)
  next
    case 4
    have "cp div 262144 < 16" using assms by (simp add: top4)
    then have "cp div 262144 + 240 < 256" by linarith
    then show ?thesis using 4 m by (simp add: encodeCodePoint_def)
  qed
qed

lemma pair_codepoint_bound:
  assumes "isLead u" "isTrail v"
  shows "(u - 0xD800) * 1024 + (v - 0xDC00) + 0x10000 < 0x110000"
proof -
  have "u - 0xD800 \<le> 1023" using assms(1) unfolding isLead_def by linarith
  then have "(u - 0xD800) * 1024 \<le> 1023 * 1024" by (rule mult_le_mono1)
  moreover have "v - 0xDC00 \<le> 1023" using assms(2) unfolding isTrail_def by linarith
  ultimately show ?thesis by simp
qed

lemma replacement_bytes: "\<forall>b\<in>set replacement. b < 256"
  by (simp add: replacement_def)

lemma utf8ToBytes_bytes:
  "\<forall>u\<in>set us. u < 0x10000 \<Longrightarrow> \<forall>b\<in>set (utf8ToBytes us). b < 256"
proof (induction us rule: toWellFormed.induct)
  case 1
  show ?case by (simp add: utf8ToBytes_Nil)
next
  case (2 u)
  then have "u < 0x110000" by simp
  then show ?case
    using encodeCodePoint_bytes [of u] replacement_bytes by (simp add: utf8ToBytes_single)
next
  case (3 u v vs)
  then have u: "u < 0x110000" and all: "\<forall>x\<in>set (v # vs). x < 0x10000"
    and vs: "\<forall>x\<in>set vs. x < 0x10000" by simp_all
  show ?case
  proof (cases "isLead u")
    case True
    note lead = this
    show ?thesis
    proof (cases "isTrail v")
      case True
      have "\<forall>b\<in>set (utf8ToBytes vs). b < 256" using "3.IH"(1) [OF lead True vs] .
      then show ?thesis
        using lead True encodeCodePoint_bytes [OF pair_codepoint_bound [OF lead True]]
        by (auto simp: utf8ToBytes_Cons2)
    next
      case False
      note notrail = this
      show ?thesis
      proof (cases "isLead v \<and> vs = []")
        case True
        then show ?thesis
          using lead notrail replacement_bytes by (simp add: utf8ToBytes_Cons2)
      next
        case False
        then have c: "(isLead v \<and> vs = []) = False" by simp
        have "\<forall>b\<in>set (utf8ToBytes (v # vs)). b < 256"
          using "3.IH"(2) [OF lead notrail False all] .
        then show ?thesis
          using lead notrail replacement_bytes by (auto simp: utf8ToBytes_Cons2 c)
      qed
    qed
  next
    case False
    note nolead = this
    show ?thesis
    proof (cases "isTrail u")
      case True
      have "\<forall>b\<in>set (utf8ToBytes (v # vs)). b < 256" using "3.IH"(3) [OF nolead True all] .
      then show ?thesis using nolead True replacement_bytes by (auto simp: utf8ToBytes_Cons2)
    next
      case False
      have "\<forall>b\<in>set (utf8ToBytes (v # vs)). b < 256" using "3.IH"(4) [OF nolead False all] .
      then show ?thesis
        using nolead False encodeCodePoint_bytes [OF u] by (auto simp: utf8ToBytes_Cons2)
    qed
  qed
qed

lemma units_bound: "\<forall>u\<in>set (units s). u < 0x10000"
proof
  fix u assume "u \<in> set (units s)"
  then obtain w :: "16 word" where "u = unat w" by (auto simp: units_def)
  then show "u < 0x10000" using unsigned_less [of w, where 'a=nat] by simp
qed

lemma fromUnits_units: "fromUnits (units s) = s"
  by (simp add: fromUnits_def units_def map_idI)

lemma units_fromUnits: "\<forall>n\<in>set ns. n < 0x10000 \<Longrightarrow> units (fromUnits ns) = ns"
proof (induction ns)
  case Nil
  show ?case by (simp add: units_def fromUnits_def)
next
  case (Cons n ns)
  then have "n < 65536" by simp
  then have "unat (of_nat n :: 16 word) = n" by (simp add: unat_of_nat)
  then show ?case using Cons by (simp add: units_def fromUnits_def)
qed

lemma base64_text_units: "units (fromUnits (base64Encode bs)) = base64Encode bs"
proof (rule units_fromUnits)
  show "\<forall>n\<in>set (base64Encode bs). n < 0x10000"
    using base64Encode_small [of bs] by fastforce
qed

lemma fromBase64_toBase64: "fromBase64 (toBase64 content) = fromUnits (toWellFormed (units content))"
proof -
  have b: "\<forall>b\<in>set (utf8ToBytes (units content)). b < 256"
    using units_bound by (rule utf8ToBytes_bytes)
  have "base64Decode (units (toBase64 content)) = utf8ToBytes (units content)"
    unfolding toBase64_def base64_text_units using b by (rule base64_roundtrip)
  moreover have "utf8Slice (utf8ToBytes (units content)) = toWellFormed (units content)"
    using units_bound by (rule utf8_roundtrip)
  ultimately show ?thesis by (simp add: fromBase64_def)
qed

lemma fromBase64_toBase64_wellFormed:
  "wellFormed (units content) \<Longrightarrow> fromBase64 (toBase64 content) = content"
  by (simp add: fromBase64_toBase64 wellFormed_fixed fromUnits_units)

lemma fromUnits_inj:
  assumes "\<forall>n\<in>set ns. n < 0x10000" and "fromUnits ns = s"
  shows "ns = units s"
  using units_fromUnits [OF assms(1)] assms(2) by simp

lemma fromBase64_toBase64_iff:
  "(fromBase64 (toBase64 content) = content) = wellFormed (units content)"
proof
  assume "fromBase64 (toBase64 content) = content"
  then have "fromUnits (toWellFormed (units content)) = content"
    by (simp add: fromBase64_toBase64)
  moreover have "\<forall>n\<in>set (toWellFormed (units content)). n < 0x10000"
    using units_bound by (rule toWellFormed_units)
  ultimately have "toWellFormed (units content) = units content"
    by (rule fromUnits_inj [rotated])
  then show "wellFormed (units content)" by (rule fixed_wellFormed)
next
  assume "wellFormed (units content)"
  then show "fromBase64 (toBase64 content) = content"
    by (rule fromBase64_toBase64_wellFormed)
qed

subsection \<open>Key distribution before the first ciphertext\<close>

lemma createMegolmSession_nonempty: "createMegolmSession rid now \<noteq> []"
  by (simp add: createMegolmSession_def)

lemma encryptMessage_fresh:
  assumes "deviceKeys cm = Some keys" and "\<not> truthy (sessionKeys cm rid)"
  shows "encryptMessage rid content recipientKeys now cm =
     (Resolved \<lparr>algorithm = ''m.megolm.v1.aes-sha2'', senderKey = curve25519 keys,
                ciphertext = toBase64 content, sessionId = createMegolmSession rid now,
                payload_deviceId = deviceId keys\<rparr>,
      cm\<lparr>sessionKeys := (sessionKeys cm)(rid \<mapsto> createMegolmSession rid now),
         steps := steps cm @ [KeyShared rid (createMegolmSession rid now) recipientKeys,
                              CiphertextProduced rid (toBase64 content)]\<rparr>)"
  using assms by (simp add: encryptMessage_def shareSessionKey_def Let_def)

lemma encryptMessage_cached:
  assumes "hasSession rid sid cm"
  shows "\<exists>p. encryptMessage rid content recipientKeys now cm =
           (Resolved p, cm\<lparr>steps := steps cm @ [CiphertextProduced rid (toBase64 content)]\<rparr>)
         \<and> sessionId p = sid"
  using assms by (auto simp: hasSession_def encryptMessage_def truthy_def Let_def)

lemma encryptMessage_keeps_session:
  assumes "hasSession rid sid cm"
  shows "hasSession rid sid (snd (encryptMessage r content recipientKeys now cm))"
  using assms
  by (auto simp: hasSession_def encryptMessage_def truthy_def Let_def shareSessionKey_def
        split: option.splits)

lemma encryptMessage_other_shares:
  assumes "hasSession rid sid cm"
  shows "keySharesFor rid (steps (snd (encryptMessage r content recipientKeys now cm)))
           = keySharesFor rid (steps cm)"
proof (cases "r = rid")
  case True
  then show ?thesis
    using encryptMessage_cached [OF assms, of content recipientKeys now]
    by (auto simp: keySharesFor_def)
next
  case False
  then show ?thesis
    using assms
    by (auto simp: hasSession_def encryptMessage_def truthy_def Let_def shareSessionKey_def
          keySharesFor_def split: option.splits)
qed

lemma encryptMessage_uninitialized:
  "deviceKeys cm = None \<Longrightarrow>
   encryptMessage rid content recipientKeys now cm = (Rejected (Error ''Crypto not initialized''), cm)"
  by (simp add: encryptMessage_def)

lemma apply_op_keeps_session:
  assumes "hasSession rid sid cm" and "\<not> replacesSessions op"
  shows "hasSession rid sid (apply_op op cm)
       \<and> keySharesFor rid (steps (apply_op op cm)) = keySharesFor rid (steps cm)"
proof (cases op)
  case (OpInitialize randomId written)
  then show ?thesis using assms(1)
    by (auto simp: hasSession_def initialize_crypto_def Let_def split: option.splits sum.splits)
next
  case (OpVerifyDevice uid did written)
  then show ?thesis using assms(1)
    by (auto simp: hasSession_def verifyDevice_def Let_def split: sum.splits)
next
  case (OpIsDeviceVerified uid did)
  then show ?thesis using assms(1) by simp
next
  case (OpEncryptMessage r content recipientKeys now)
  then show ?thesis
    using encryptMessage_keeps_session [OF assms(1)] encryptMessage_other_shares [OF assms(1)]
    by simp
next
  case (OpDecryptMessage payload)
  then show ?thesis using assms(1) by (simp add: decryptMessage_def)
next
  case (OpExportKeys passphrase)
  then show ?thesis using assms(1) by (simp add: exportKeys_def split: option.splits)
next
  case (OpImportKeys backup passphrase written)
  then have "backup = None" using assms(2) by (cases backup) simp_all
  then show ?thesis using assms(1) OpImportKeys by (simp add: importKeys_def)
qed

lemma run_ops_keeps_session:
  assumes "hasSession rid sid cm" and "\<forall>op\<in>set ops. \<not> replacesSessions op"
  shows "hasSession rid sid (run_ops ops cm)
       \<and> keySharesFor rid (steps (run_ops ops cm)) = keySharesFor rid (steps cm)"
  using assms unfolding run_ops_def
proof (induction ops arbitrary: cm)
  case Nil
  then show ?case by simp
next
  case (Cons op ops)
  have "\<not> replacesSessions op" using Cons.prems(2) by simp
  from apply_op_keeps_session [OF Cons.prems(1) this]
  have a: "hasSession rid sid (apply_op op cm)"
    and b: "keySharesFor rid (steps (apply_op op cm)) = keySharesFor rid (steps cm)"
    by simp_all
  have "\<forall>op\<in>set ops. \<not> replacesSessions op" using Cons.prems(2) by simp
  from Cons.IH [OF a this] b show ?case by simp
qed

text \<open>
  The claim C2 as stated fails in two ways. When the manager has not been initialized,
  \<open>encryptMessage\<close> for a room without a session throws \<open>Crypto not initialized\<close>
  before it looks at the sessions, and no key is distributed. And a later call for a
  room need not reuse the room's session: \<open>importKeys\<close> replaces the session keys by
  those of the backup, so after a backup taken before the room's first message has been
  imported, the next message to the room creates a second session and distributes its
  key again.
\<close>

theorem session_not_always_reused:
  "encryptMessage ''!dm1'' exText [exRecipient] 5 newCryptoManager
     = (Rejected (Error ''Crypto not initialized''), newCryptoManager)
   \<and> exportKeys ''secret'' exManager = (Resolved exBackup, exManager)
   \<and> (\<exists>p. fst (encryptMessage ''!dm1'' exText [exRecipient] 5 exManager) = Resolved p
          \<and> sessionId p = ''session_!dm1_5'')
   \<and> (\<exists>p. fst (encryptMessage ''!dm1'' exText [exRecipient] 9
                   (run_ops [OpEncryptMessage ''!dm1'' exText [exRecipient] 5,
                             OpImportKeys (Some exBackup) ''secret'' (Inr ())] exManager))
               = Resolved p
          \<and> sessionId p = ''session_!dm1_9'')
   \<and> keySharesFor ''!dm1''
         (steps (run_ops [OpEncryptMessage ''!dm1'' exText [exRecipient] 5,
                          OpImportKeys (Some exBackup) ''secret'' (Inr ()),
                          OpEncryptMessage ''!dm1'' exText [exRecipient] 9] exManager))
       = [KeyShared ''!dm1'' ''session_!dm1_5'' [exRecipient],
          KeyShared ''!dm1'' ''session_!dm1_9'' [exRecipient]]"
proof -
  have d: "createMegolmSession ''!dm1'' 5 = ''session_!dm1_5''"
      "createMegolmSession ''!dm1'' 9 = ''session_!dm1_9''"
    by (simp_all add: createMegolmSession_def decimal.simps)
  have m: "exManager = newCryptoManager
             \<lparr>deviceKeys := Some (generateDeviceKeys ''ABCDEFGHIJ''),
              secureStore := \<lparr>stored_crypto = Some (Some (generateDeviceKeys ''ABCDEFGHIJ'')),
                               stored_verified = None\<rparr>\<rparr>"
    by (simp add: exManager_def initialize_crypto_def newCryptoManager_def Let_def)
  show ?thesis
    unfolding m
    by (simp add: newCryptoManager_def encryptMessage_def exportKeys_def exBackup_def run_ops_def
          importKeys_def shareSessionKey_def keySharesFor_def truthy_def Let_def d setFromList_def)
qed

text \<open>
  C2, amended. Whenever \<open>encryptMessage\<close> is invoked with the device keys initialized
  for a room that has no session id cached (no entry in \<open>sessionKeys\<close>, or an empty
  one), it takes exactly two steps: one call of \<open>shareSessionKey\<close> with the new session
  id and all the recipient keys supplied, and after it the production of the ciphertext.
  The payload carries the new session id. After any run of later operations of the
  manager in which no \<open>importKeys\<close> has replaced the session keys, the room's key
  distributions are still the single one of the first call, and a call of
  \<open>encryptMessage\<close> for the room returns a payload with that same session id and
  takes one step only, the production of the ciphertext. An \<open>importKeys\<close> whose backup
  parses replaces the device keys and the session keys by those of the backup. With the
  device keys not initialized, \<open>encryptMessage\<close> throws \<open>Crypto not initialized\<close> and
  leaves the manager as it was, so that nothing is distributed.
\<close>

theorem key_shared_once_before_ciphertext:
  assumes keys: "deviceKeys cm = Some keys" and fresh: "\<not> truthy (sessionKeys cm rid)"
    and store: "stored_crypto (secureStore cm) \<noteq> Some None"
    and later: "\<forall>op\<in>set later. \<not> replacesSessions op"
  shows "steps (snd (encryptMessage rid content recipientKeys now cm))
           = steps cm @ [KeyShared rid (createMegolmSession rid now) recipientKeys,
                         CiphertextProduced rid (toBase64 content)]
       \<and> (\<exists>p. fst (encryptMessage rid content recipientKeys now cm) = Resolved p
              \<and> sessionId p = createMegolmSession rid now)
       \<and> keySharesFor rid
             (steps (run_ops later (snd (encryptMessage rid content recipientKeys now cm))))
           = keySharesFor rid (steps cm) @ [KeyShared rid (createMegolmSession rid now) recipientKeys]
       \<and> (\<exists>p. encryptMessage rid content2 recipientKeys2 now2
                   (run_ops later (snd (encryptMessage rid content recipientKeys now cm)))
                = (Resolved p,
                   (run_ops later (snd (encryptMessage rid content recipientKeys now cm)))
                     \<lparr>steps := steps (run_ops later
                                          (snd (encryptMessage rid content recipientKeys now cm)))
                                 @ [CiphertextProduced rid (toBase64 content2)]\<rparr>)
              \<and> sessionId p = createMegolmSession rid now)
       \<and> sessionKeys (apply_op (OpImportKeys (Some backup) passphrase written) cm2)
           = backup_sessionKeys backup
       \<and> deviceKeys (apply_op (OpImportKeys (Some backup) passphrase written) cm2)
           = backup_deviceKeys backup
       \<and> (deviceKeys cm0 = None \<longrightarrow>
            encryptMessage rid0 content0 recipientKeys0 now0 cm0
              = (Rejected (Error ''Crypto not initialized''), cm0))"
proof -
  let ?sid = "createMegolmSession rid now"
  let ?cm1 = "snd (encryptMessage rid content recipientKeys now cm)"
  note first = encryptMessage_fresh [OF keys fresh, of content recipientKeys now]
  have st: "steps ?cm1 = steps cm @ [KeyShared rid ?sid recipientKeys,
                         CiphertextProduced rid (toBase64 content)]"
    by (simp add: first)
  have res: "\<exists>p. fst (encryptMessage rid content recipientKeys now cm) = Resolved p
              \<and> sessionId p = ?sid"
    by (simp add: first)
  have inv: "hasSession rid ?sid ?cm1"
    using keys store by (simp add: first hasSession_def createMegolmSession_nonempty)
  have sh: "keySharesFor rid (steps ?cm1) = keySharesFor rid (steps cm) @ [KeyShared rid ?sid recipientKeys]"
    by (simp add: st keySharesFor_def)
  from run_ops_keeps_session [OF inv later]
  have inv2: "hasSession rid ?sid (run_ops later ?cm1)"
    and sh2: "keySharesFor rid (steps (run_ops later ?cm1)) = keySharesFor rid (steps ?cm1)"
    by simp_all
  note again = encryptMessage_cached [OF inv2, of content2 recipientKeys2 now2]
  have imp: "sessionKeys (apply_op (OpImportKeys (Some backup) passphrase written) cm2)
           = backup_sessionKeys backup"
      "deviceKeys (apply_op (OpImportKeys (Some backup) passphrase written) cm2)
           = backup_deviceKeys backup"
    by (simp_all add: importKeys_def Let_def split: sum.splits)
  show ?thesis
    using st res sh sh2 again imp encryptMessage_uninitialized by simp
qed

theorem key_shared_once_before_ciphertext_witness:
  "deviceKeys exManager = Some (generateDeviceKeys ''ABCDEFGHIJ'')
   \<and> \<not> truthy (sessionKeys exManager ''!dm1'')
   \<and> stored_crypto (secureStore exManager) = Some (Some (generateDeviceKeys ''ABCDEFGHIJ''))
   \<and> list_all (\<lambda>op. \<not> replacesSessions op) exLater
   \<and> steps (snd (encryptMessage ''!dm1'' exText [exRecipient] 5 exManager))
       = [KeyShared ''!dm1'' ''session_!dm1_5'' [exRecipient],
          CiphertextProduced ''!dm1'' (toBase64 exText)]
   \<and> keySharesFor ''!dm1''
         (steps (run_ops exLater (snd (encryptMessage ''!dm1'' exText [exRecipient] 5 exManager))))
       = [KeyShared ''!dm1'' ''session_!dm1_5'' [exRecipient]]
   \<and> (\<exists>p. fst (encryptMessage ''!dm1'' exText [exRecipient] 10
                   (run_ops exLater (snd (encryptMessage ''!dm1'' exText [exRecipient] 5 exManager))))
               = Resolved p
          \<and> sessionId p = ''session_!dm1_5'')"
proof -
  have k: "deviceKeys exManager = Some (generateDeviceKeys ''ABCDEFGHIJ'')"
    by (simp add: exManager_def initialize_crypto_def newCryptoManager_def Let_def)
  have f: "\<not> truthy (sessionKeys exManager ''!dm1'')"
    by (simp add: exManager_def initialize_crypto_def newCryptoManager_def Let_def truthy_def)
  have s: "steps exManager = []"
    by (simp add: exManager_def initialize_crypto_def newCryptoManager_def Let_def)
  have z: "stored_crypto (secureStore exManager) = Some (Some (generateDeviceKeys ''ABCDEFGHIJ''))"
    by (simp add: exManager_def initialize_crypto_def newCryptoManager_def Let_def)
  then have z': "stored_crypto (secureStore exManager) \<noteq> Some None" by simp
  have l: "\<forall>op\<in>set exLater. \<not> replacesSessions op"
    by (simp add: exLater_def)
  have l': "list_all (\<lambda>op. \<not> replacesSessions op) exLater"
    using l by (simp add: list_all_iff)
  have d: "createMegolmSession ''!dm1'' 5 = ''session_!dm1_5''"
    by (simp add: createMegolmSession_def decimal.simps)
  note t = key_shared_once_before_ciphertext [OF k f z' l, of exText "[exRecipient]" 5 exText "[exRecipient]" 10]
  from t have a: "steps (snd (encryptMessage ''!dm1'' exText [exRecipient] 5 exManager))
       = steps exManager @ [KeyShared ''!dm1'' (createMegolmSession ''!dm1'' 5) [exRecipient],
          CiphertextProduced ''!dm1'' (toBase64 exText)]"
    by blast
  from t have b: "keySharesFor ''!dm1''
         (steps (run_ops exLater (snd (encryptMessage ''!dm1'' exText [exRecipient] 5 exManager))))
       = keySharesFor ''!dm1'' (steps exManager)
         @ [KeyShared ''!dm1'' (createMegolmSession ''!dm1'' 5) [exRecipient]]"
    by blast
  from t obtain p where c: "encryptMessage ''!dm1'' exText [exRecipient] 10
                   (run_ops exLater (snd (encryptMessage ''!dm1'' exText [exRecipient] 5 exManager)))
       = (Resolved p,
          (run_ops exLater (snd (encryptMessage ''!dm1'' exText [exRecipient] 5 exManager)))
            \<lparr>steps := steps (run_ops exLater (snd (encryptMessage ''!dm1'' exText [exRecipient] 5 exManager)))
                        @ [CiphertextProduced ''!dm1'' (toBase64 exText)]\<rparr>)"
      "sessionId p = createMegolmSession ''!dm1'' 5"
    by blast
  have c': "\<exists>p. fst (encryptMessage ''!dm1'' exText [exRecipient] 10
                   (run_ops exLater (snd (encryptMessage ''!dm1'' exText [exRecipient] 5 exManager))))
               = Resolved p
          \<and> sessionId p = ''session_!dm1_5''"
    using c d by simp
  have e: "keySharesFor ''!dm1'' (steps exManager) = []"
    by (simp add: s keySharesFor_def)
  have a': "steps (snd (encryptMessage ''!dm1'' exText [exRecipient] 5 exManager))
       = [KeyShared ''!dm1'' ''session_!dm1_5'' [exRecipient],
          CiphertextProduced ''!dm1'' (toBase64 exText)]"
    using a by (simp add: s d)
  have b': "keySharesFor ''!dm1''
         (steps (run_ops exLater (snd (encryptMessage ''!dm1'' exText [exRecipient] 5 exManager))))
       = [KeyShared ''!dm1'' ''session_!dm1_5'' [exRecipient]]"
    using b by (simp add: e d)
  show ?thesis
    using k f z l' a' b' c' by blast
qed

subsection \<open>The placeholder encryption\<close>

lemma roundTrip_general:
  assumes "deviceKeys cm = Some keys"
  shows "roundTrip rid content recipientKeys now cm = Resolved (fromBase64 (toBase64 content))"
  using assms
  by (simp add: roundTrip_def encryptMessage_def decryptMessage_def Let_def)

text \<open>
  The claim C10 as stated fails for a string with an unpaired surrogate: \<open>Buffer.from\<close>
  encodes a lone lead surrogate as U+FFFD, so the string that comes back differs from
  the one sent; of two lead surrogates that make up the whole string, the first comes
  back as U+FFFD and the second is lost.
\<close>

theorem lone_surrogate_not_restored:
  "deviceKeys exManager = Some (generateDeviceKeys ''ABCDEFGHIJ'')
   \<and> roundTrip ''!dm1'' [0xD800] [exRecipient] 5 exManager = Resolved [0xFFFD]
   \<and> roundTrip ''!dm1'' [0xD800] [exRecipient] 5 exManager \<noteq> Resolved [0xD800]
   \<and> roundTrip ''!dm1'' [0xD800, 0xDBFF] [exRecipient] 5 exManager = Resolved [0xFFFD]"
proof -
  have k: "deviceKeys exManager = Some (generateDeviceKeys ''ABCDEFGHIJ'')"
    by (simp add: exManager_def initialize_crypto_def newCryptoManager_def Let_def)
  have "fromUnits (toWellFormed (units [0xD800])) = [0xFFFD]"
    by (simp add: units_def fromUnits_def isLead_def)
  then have a: "roundTrip ''!dm1'' [0xD800] [exRecipient] 5 exManager = Resolved [0xFFFD]"
    using roundTrip_general [OF k] by (simp add: fromBase64_toBase64)
  have "fromUnits (toWellFormed (units [0xD800, 0xDBFF])) = [0xFFFD]"
    by (simp add: units_def fromUnits_def isLead_def isTrail_def)
  then have b: "roundTrip ''!dm1'' [0xD800, 0xDBFF] [exRecipient] 5 exManager = Resolved [0xFFFD]"
    using roundTrip_general [OF k] by (simp add: fromBase64_toBase64)
  show ?thesis using k a b by simp
qed

text \<open>
  C10, amended. With the device keys initialized, and for every room, content and
  recipient list, \<open>decryptMessage\<close> applied to the payload of \<open>encryptMessage\<close> returns
  exactly the content if and only if the content has no unpaired surrogate. In general
  it returns the content with each unpaired surrogate replaced by U+FFFD, except that a
  lead surrogate which ends the string directly after another unpaired lead surrogate
  is dropped.
\<close>

theorem placeholder_encryption_roundtrip:
  assumes keys: "deviceKeys cm = Some keys"
  shows "(roundTrip rid content recipientKeys now cm = Resolved content)
           = wellFormed (units content)
       \<and> roundTrip rid content recipientKeys now cm
           = Resolved (fromUnits (toWellFormed (units content)))
       \<and> (\<exists>payload cm1. encryptMessage rid content recipientKeys now cm = (Resolved payload, cm1)
              \<and> ciphertext payload = toBase64 content
              \<and> decryptMessage payload cm1 = (Resolved (fromBase64 (toBase64 content)), cm1))"
proof (intro conjI)
  note r = roundTrip_general [OF keys, of rid content recipientKeys now]
  show "(roundTrip rid content recipientKeys now cm = Resolved content)
           = wellFormed (units content)"
    unfolding r using fromBase64_toBase64_iff [of content] by simp
  show "roundTrip rid content recipientKeys now cm
           = Resolved (fromUnits (toWellFormed (units content)))"
    unfolding r by (simp add: fromBase64_toBase64)
  show "\<exists>payload cm1. encryptMessage rid content recipientKeys now cm = (Resolved payload, cm1)
              \<and> ciphertext payload = toBase64 content
              \<and> decryptMessage payload cm1 = (Resolved (fromBase64 (toBase64 content)), cm1)"
    using keys by (simp add: encryptMessage_def decryptMessage_def Let_def)
qed

theorem placeholder_encryption_roundtrip_witness:
  "deviceKeys exManager = Some (generateDeviceKeys ''ABCDEFGHIJ'')
   \<and> wellFormed (units exText)
   \<and> toBase64 [0x48, 0x69] = [0x53, 0x47, 0x6B, 0x3D]
   \<and> roundTrip ''!dm1'' exText [exRecipient] 5 exManager = Resolved exText"
proof -
  have k: "deviceKeys exManager = Some (generateDeviceKeys ''ABCDEFGHIJ'')"
    by (simp add: exManager_def initialize_crypto_def newCryptoManager_def Let_def)
  have w: "wellFormed (units exText)"
    by (simp add: exText_def units_def isLead_def isTrail_def)
  have b: "toBase64 [0x48, 0x69] = [0x53, 0x47, 0x6B, 0x3D]"
    by (simp add: toBase64_def units_def fromUnits_def isLead_def isTrail_def encodeCodePoint_def
          base64Char_def utf8ToBytes_Cons2 utf8ToBytes_single)
  from placeholder_encryption_roundtrip [OF k, of "''!dm1''" exText "[exRecipient]" 5] w
  have "roundTrip ''!dm1'' exText [exRecipient] 5 exManager = Resolved exText" by blast
  then show ?thesis using k w b by simp
qed

subsection \<open>Device verification\<close>

lemma setAdd_idem: "setAdd k (setAdd k xs) = setAdd k xs"
  by (simp add: setAdd_def)

lemma setAdd_member: "k \<in> set (setAdd k xs)"
  by (simp add: setAdd_def)

lemma setAdd_keeps: "set xs \<subseteq> set (setAdd k xs)"
  by (auto simp: setAdd_def)

lemma verifyDevice_twice:
  "snd (verifyDevice uid did w (snd (verifyDevice uid did w cm))) = snd (verifyDevice uid did w cm)"
  by (cases w) (simp_all add: verifyDevice_def Let_def setAdd_idem)

lemma verifyDevice_twice_verified:
  "verifiedDevices (snd (verifyDevice uid did w2 (snd (verifyDevice uid did w1 cm))))
     = verifiedDevices (snd (verifyDevice uid did w1 cm))"
  by (cases w1; cases w2) (simp_all add: verifyDevice_def Let_def setAdd_idem)

lemma verifyDevice_marks: "isDeviceVerified uid did (snd (verifyDevice uid did w cm))"
  by (cases w) (simp_all add: verifyDevice_def Let_def isDeviceVerified_def setAdd_member)

lemma apply_op_keeps_verified:
  assumes "\<And>b p w. op \<noteq> OpImportKeys (Some b) p w"
  shows "set (verifiedDevices cm) \<subseteq> set (verifiedDevices (apply_op op cm))"
proof (cases op)
  case (OpInitialize randomId w)
  then show ?thesis
    by (cases w) (simp_all add: initialize_crypto_def Let_def split: option.splits)
next
  case (OpVerifyDevice uid did w)
  then show ?thesis
    using setAdd_keeps by (cases w) (simp_all add: verifyDevice_def Let_def)
next
  case (OpIsDeviceVerified uid did)
  then show ?thesis by simp
next
  case (OpEncryptMessage rid content recipientKeys now)
  then show ?thesis
    by (simp add: encryptMessage_def Let_def shareSessionKey_def split: option.splits)
next
  case (OpDecryptMessage payload)
  then show ?thesis by (simp add: decryptMessage_def)
next
  case (OpExportKeys passphrase)
  then show ?thesis by (simp add: exportKeys_def split: option.splits)
next
  case (OpImportKeys backup passphrase w)
  then have "backup = None" using assms by (cases backup) auto
  then show ?thesis using OpImportKeys by (simp add: importKeys_def)
qed

lemma importKeys_replaces:
  "verifiedDevices (apply_op (OpImportKeys (Some b) p w) cm) = setFromList (backup_verifiedDevices b)"
  by (cases w) (simp_all add: importKeys_def Let_def)

lemma verifyDevice_client_calls:
  "sdkCalls (snd (verifyDevice_client uid did resp st)) = sdkCalls st
   \<or> sdkCalls (snd (verifyDevice_client uid did resp st)) = sdkCalls st @ [SetDeviceVerified uid did True]"
  by (simp add: verifyDevice_client_def call_def split: option.splits sum.splits)

text \<open>
  The claim C5 as stated fails for \<open>importKeys\<close>: it replaces the verified devices by
  those of the backup, so importing a backup made before a device was verified removes
  that device from the set.
\<close>

theorem importKeys_unmarks_device:
  "fst (exportKeys ''secret'' exManager) = Resolved exBackup
   \<and> isDeviceVerified ''@clawbot:clawchat.io'' ''BOTDEVICE1''
         (apply_op (OpVerifyDevice ''@clawbot:clawchat.io'' ''BOTDEVICE1'' (Inr ())) exManager)
   \<and> \<not> isDeviceVerified ''@clawbot:clawchat.io'' ''BOTDEVICE1''
         (apply_op (OpImportKeys (Some exBackup) ''secret'' (Inr ()))
            (apply_op (OpVerifyDevice ''@clawbot:clawchat.io'' ''BOTDEVICE1'' (Inr ())) exManager))"
  by (simp add: exManager_def exBackup_def initialize_crypto_def newCryptoManager_def Let_def
        exportKeys_def verifyDevice_def importKeys_def isDeviceVerified_def setAdd_def
        setFromList_def deviceKey_def)

text \<open>
  C5, amended. \<open>verifyDevice(userId, deviceId)\<close> is idempotent: a second call with the
  same arguments leaves the state as the first left it (the verified devices whatever the
  writes to the store answer, the whole state when they answer alike), and the device is
  verified afterwards. Every operation of the crypto manager other than a successful
  parse in \<open>importKeys\<close> keeps every verified device verified; \<open>importKeys\<close> sets the
  verified devices to those listed in the backup. The client's \<open>verifyDevice\<close> calls
  \<open>setDeviceVerified\<close> at most once, and only with \<open>true\<close>.
\<close>

theorem verifyDevice_idempotent_monotone:
  "snd (verifyDevice uid did w (snd (verifyDevice uid did w cm))) = snd (verifyDevice uid did w cm)
   \<and> verifiedDevices (snd (verifyDevice uid did w2 (snd (verifyDevice uid did w1 cm))))
       = verifiedDevices (snd (verifyDevice uid did w1 cm))
   \<and> isDeviceVerified uid did (snd (verifyDevice uid did w cm))
   \<and> (\<forall>op. (\<forall>b p x. op \<noteq> OpImportKeys (Some b) p x) \<longrightarrow>
          (\<forall>u d. isDeviceVerified u d cm \<longrightarrow> isDeviceVerified u d (apply_op op cm)))
   \<and> verifiedDevices (apply_op (OpImportKeys (Some b) p x) cm) = setFromList (backup_verifiedDevices b)
   \<and> (sdkCalls (snd (verifyDevice_client uid did resp st)) = sdkCalls st
        \<or> sdkCalls (snd (verifyDevice_client uid did resp st))
            = sdkCalls st @ [SetDeviceVerified uid did True])"
proof (intro conjI)
  show "snd (verifyDevice uid did w (snd (verifyDevice uid did w cm))) = snd (verifyDevice uid did w cm)"
    by (rule verifyDevice_twice)
  show "verifiedDevices (snd (verifyDevice uid did w2 (snd (verifyDevice uid did w1 cm))))
       = verifiedDevices (snd (verifyDevice uid did w1 cm))"
    by (rule verifyDevice_twice_verified)
  show "isDeviceVerified uid did (snd (verifyDevice uid did w cm))"
    by (rule verifyDevice_marks)
  show "\<forall>op. (\<forall>b p x. op \<noteq> OpImportKeys (Some b) p x) \<longrightarrow>
          (\<forall>u d. isDeviceVerified u d cm \<longrightarrow> isDeviceVerified u d (apply_op op cm))"
  proof (intro allI impI)
    fix op u d
    assume "\<forall>b p x. op \<noteq> OpImportKeys (Some b) p x" and v: "isDeviceVerified u d cm"
    then have "set (verifiedDevices cm) \<subseteq> set (verifiedDevices (apply_op op cm))"
      using apply_op_keeps_verified [of op cm] by blast
    then show "isDeviceVerified u d (apply_op op cm)"
      using v unfolding isDeviceVerified_def by blast
  qed
  show "verifiedDevices (apply_op (OpImportKeys (Some b) p x) cm) = setFromList (backup_verifiedDevices b)"
    by (rule importKeys_replaces)
  show "sdkCalls (snd (verifyDevice_client uid did resp st)) = sdkCalls st
        \<or> sdkCalls (snd (verifyDevice_client uid did resp st))
            = sdkCalls st @ [SetDeviceVerified uid did True]"
    by (rule verifyDevice_client_calls)
qed

theorem verifyDevice_idempotent_monotone_witness:
  "isDeviceVerified ''@clawbot:clawchat.io'' ''BOTDEVICE1''
     (apply_op (OpVerifyDevice ''@clawbot:clawchat.io'' ''BOTDEVICE1'' (Inr ())) exManager)
   \<and> isDeviceVerified ''@clawbot:clawchat.io'' ''BOTDEVICE1''
       (apply_op (OpEncryptMessage ''!dm1'' exText [exRecipient] 5)
          (apply_op (OpVerifyDevice ''@clawbot:clawchat.io'' ''BOTDEVICE1'' (Inr ())) exManager))
   \<and> verifiedDevices
         (apply_op (OpVerifyDevice ''@clawbot:clawchat.io'' ''BOTDEVICE1'' (Inr ()))
            (apply_op (OpVerifyDevice ''@clawbot:clawchat.io'' ''BOTDEVICE1'' (Inr ())) exManager))
       = [''@clawbot:clawchat.io:BOTDEVICE1'']"
proof -
  let ?u = "''@clawbot:clawchat.io''" and ?d = "''BOTDEVICE1''"
  let ?cm1 = "apply_op (OpVerifyDevice ?u ?d (Inr ())) exManager"
  let ?op = "OpEncryptMessage ''!dm1'' exText [exRecipient] 5"
  note t = verifyDevice_idempotent_monotone [of ?u ?d "Inr ()" exManager]
  from t have m: "isDeviceVerified ?u ?d ?cm1" by simp
  have n: "\<forall>b p x. ?op \<noteq> OpImportKeys (Some b) p x" by simp
  from verifyDevice_idempotent_monotone [of ?u ?d "Inr ()" ?cm1]
  have "\<forall>op. (\<forall>b p x. op \<noteq> OpImportKeys (Some b) p x) \<longrightarrow>
          (\<forall>u d. isDeviceVerified u d ?cm1 \<longrightarrow> isDeviceVerified u d (apply_op op ?cm1))"
    by blast
  then have k: "isDeviceVerified ?u ?d (apply_op ?op ?cm1)"
    using n m by blast
  have l: "verifiedDevices (apply_op (OpVerifyDevice ?u ?d (Inr ())) ?cm1)
       = [''@clawbot:clawchat.io:BOTDEVICE1'']"
    by (simp add: exManager_def initialize_crypto_def newCryptoManager_def Let_def
        verifyDevice_def setAdd_def deviceKey_def)
  show ?thesis using m k l by simp
qed

end
